theory Spec2Isabelle
  imports Complex_Main "HOL-Library.AList" "HOL-Library.Sublist"
begin

section \<open>Values, errors and responses\<close>

text \<open>
  The three services of the repository are embedded side by side: the todo API over a
  document collection (\<^verbatim>\<open>MongoDB/routes/route.py\<close>), the book API over a relational
  table (\<^verbatim>\<open>SQL/main.py\<close>) and the in-memory book API (\<^verbatim>\<open>basics.py\<close>).
  Every handler is a function from its arguments and the store to a result and the new
  store. A raised exception is the \<open>Inl\<close> branch of the result; a returned value is
  \<open>Inr (status_code, body)\<close>, the status code being the one of the route decorator.
\<close>

text \<open>
  An ObjectId is represented by its hexadecimal rendering, which is what \<^verbatim>\<open>str\<close>
  returns for it. A \<^verbatim>\<open>datetime\<close> is a point on a discrete time line.
\<close>

type_synonym object_id = string
type_synonym datetime = nat

datatype val = VNone | VBool bool | VStr string | VDate datetime | VOid object_id

datatype error =
    HTTPException nat string
  | DuplicateKeyError
  | TypeError
  | IntegrityError
  | InvalidRequestError
  | OverflowError

type_synonym 'a response = "nat \<times> 'a"

text \<open>Python's truth value of an object, as \<^verbatim>\<open>not\<close> and \<^verbatim>\<open>if\<close> use it.\<close>

fun truthy :: "val \<Rightarrow> bool" where
  "truthy VNone = False"
| "truthy (VBool b) = b"
| "truthy (VStr s) = (s \<noteq> [])"
| "truthy (VDate t) = True"
| "truthy (VOid oid) = True"

text \<open>The decimal rendering of an integer, as an f-string produces it.\<close>

definition digit :: "nat \<Rightarrow> char" where
  "digit n = char_of (48 + n)"

function str_nat :: "nat \<Rightarrow> string" where
  "str_nat n = (if n < 10 then [digit n] else str_nat (n div 10) @ [digit (n mod 10)])"
  by pat_completeness auto
termination
  by (relation "measure (\<lambda>n. n)") auto

declare str_nat.simps [simp del]

definition str_int :: "int \<Rightarrow> string" where
  "str_int i = (if i < 0 then CHR ''-'' # str_nat (nat (- i)) else str_nat (nat i))"

section \<open>The document collection\<close>

text \<open>
  A stored document is a dictionary that always carries an \<^verbatim>\<open>_id\<close> holding an
  ObjectId, which the store never lets an update change; the remaining keys are kept in
  insertion order. The collection keeps its documents in insertion order.
\<close>

record document =
  doc_id :: object_id
  doc_fields :: "(string \<times> val) list"

type_synonym collection = "document list"
type_synonym query = "(string \<times> val) list"

definition lookup :: "document \<Rightarrow> string \<Rightarrow> val option" where
  "lookup d k = (if k = ''_id'' then Some (VOid (doc_id d)) else map_of (doc_fields d) k)"

text \<open>\<^verbatim>\<open>todo.get(key, default)\<close>\<close>

definition get :: "document \<Rightarrow> string \<Rightarrow> val \<Rightarrow> val" where
  "get d k dflt = (case lookup d k of None \<Rightarrow> dflt | Some v \<Rightarrow> v)"

text \<open>A query dictionary is a conjunction of equalities on fields.\<close>

definition matches :: "query \<Rightarrow> document \<Rightarrow> bool" where
  "matches q d = list_all (\<lambda>(k, v). lookup d k = Some v) q"

definition find_one :: "collection \<Rightarrow> query \<Rightarrow> document option" where
  "find_one c q = List.find (matches q) c"

text \<open>The \<^verbatim>\<open>$set\<close> operator: each given field is overwritten or added.\<close>

definition set_fields :: "document \<Rightarrow> (string \<times> val) list \<Rightarrow> document" where
  "set_fields d upd = d\<lparr>doc_fields := fold (\<lambda>(k, v). AList.update k v) upd (doc_fields d)\<rparr>"

fun update_one :: "collection \<Rightarrow> query \<Rightarrow> (string \<times> val) list \<Rightarrow> collection" where
  "update_one [] q upd = []"
| "update_one (d # ds) q upd =
     (if matches q d then set_fields d upd # ds else d # update_one ds q upd)"

text \<open>\<^verbatim>\<open>delete_one\<close> returns the \<^verbatim>\<open>deleted_count\<close> and the new collection.\<close>

fun delete_one :: "collection \<Rightarrow> query \<Rightarrow> nat \<times> collection" where
  "delete_one [] q = (0, [])"
| "delete_one (d # ds) q =
     (if matches q d then (1, ds)
      else (case delete_one ds q of (n, ds') \<Rightarrow> (n, d # ds')))"

definition delete_many :: "collection \<Rightarrow> query \<Rightarrow> nat \<times> collection" where
  "delete_many c q = (length (filter (matches q) c), filter (\<lambda>d. \<not> matches q d) c)"

definition count_documents :: "collection \<Rightarrow> query \<Rightarrow> nat" where
  "count_documents c q = length (filter (matches q) c)"

text \<open>
  \<^verbatim>\<open>insert_one\<close> stores the dictionary under the ObjectId the driver generated for
  it; the collection's unique index on \<^verbatim>\<open>_id\<close> refuses an identifier already in use.
\<close>

definition insert_one ::
  "collection \<Rightarrow> (string \<times> val) list \<Rightarrow> object_id \<Rightarrow> error + object_id \<times> collection" where
  "insert_one c doc new_id =
     (if new_id \<in> set (map doc_id c) then Inl DuplicateKeyError
      else Inr (new_id, c @ [\<lparr>doc_id = new_id, doc_fields = doc\<rparr>]))"

section \<open>The todo models and the serializer\<close>

text \<open>
  \<^verbatim>\<open>TodoCreate\<close> and \<^verbatim>\<open>TodoUpdate\<close> of \<^verbatim>\<open>models/todos.py\<close>. A field of
  \<^verbatim>\<open>TodoUpdate\<close> that the request body omits has its default \<^verbatim>\<open>None\<close>;
  \<open>tu_fields_set\<close> is the set of the fields the body did give (possibly as null).
\<close>

record TodoCreate =
  tc_name :: string
  tc_description :: string
  tc_complete :: bool

record TodoUpdate =
  tu_name :: "string option"
  tu_description :: "string option"
  tu_complete :: "bool option"
  tu_fields_set :: "string set"

definition opt_val :: "('a \<Rightarrow> val) \<Rightarrow> 'a option \<Rightarrow> val" where
  "opt_val f x = (case x of None \<Rightarrow> VNone | Some a \<Rightarrow> f a)"

definition model_dump_create :: "TodoCreate \<Rightarrow> (string \<times> val) list" where
  "model_dump_create todo =
     [(''name'', VStr (tc_name todo)),
      (''description'', VStr (tc_description todo)),
      (''complete'', VBool (tc_complete todo))]"

definition model_dump :: "TodoUpdate \<Rightarrow> (string \<times> val) list" where
  "model_dump todo =
     [(''name'', opt_val VStr (tu_name todo)),
      (''description'', opt_val VStr (tu_description todo)),
      (''complete'', opt_val VBool (tu_complete todo))]"

definition str_oid :: "object_id \<Rightarrow> string" where
  "str_oid oid = oid"

definition individual_serial :: "document \<Rightarrow> (string \<times> val) list" where
  "individual_serial todo =
     [(''id'', VStr (str_oid (doc_id todo))),
      (''name'', get todo ''name'' (VStr '''')),
      (''description'', get todo ''description'' (VStr '''')),
      (''complete'', get todo ''complete'' (VBool False)),
      (''created_at'', get todo ''created_at'' VNone),
      (''updated_at'', get todo ''updated_at'' VNone)]"

section \<open>The todo handlers\<close>

text \<open>
  The constructor \<^verbatim>\<open>ObjectId\<close> of the \<^verbatim>\<open>bson\<close> library is a parameter of the
  handlers: it gives \<open>None\<close> where the library raises \<^verbatim>\<open>InvalidId\<close>. The readings of
  \<^verbatim>\<open>datetime.utcnow()\<close> are parameters too, one for each call of the source.
  The connection is opened when the application starts (\<^verbatim>\<open>lifespan\<close> of
  \<^verbatim>\<open>MongoDB/main.py\<close>), so \<^verbatim>\<open>get_todo_collection()\<close> only hands out the
  collection, which is the last argument of each handler. A document that
  \<^verbatim>\<open>find_one\<close> returns is never an empty dictionary, so \<^verbatim>\<open>if not todo\<close> is the test
  for \<open>None\<close>; \<^verbatim>\<open>individual_serial\<close> of \<^verbatim>\<open>None\<close> is a \<^verbatim>\<open>TypeError\<close>.
\<close>

definition validate_object_id :: "(string \<Rightarrow> object_id option) \<Rightarrow> string \<Rightarrow> error + object_id" where
  "validate_object_id ObjectId id' =
     (case ObjectId id' of
        Some oid \<Rightarrow> Inr oid
      | None \<Rightarrow> Inl (HTTPException 400 (''Invalid ID format: '' @ id')))"

definition not_found :: "string \<Rightarrow> error" where
  "not_found id' = HTTPException 404 (''Todo with ID '' @ id' @ '' not found'')"

definition get_todo ::
  "(string \<Rightarrow> object_id option) \<Rightarrow> string \<Rightarrow> collection
    \<Rightarrow> (error + (string \<times> val) list response) \<times> collection" where
  "get_todo ObjectId id' collection =
     (case validate_object_id ObjectId id' of
        Inl e \<Rightarrow> (Inl e, collection)
      | Inr object_id \<Rightarrow>
          (case find_one collection [(''_id'', VOid object_id)] of
             None \<Rightarrow> (Inl (not_found id'), collection)
           | Some todo \<Rightarrow> (Inr (200, individual_serial todo), collection)))"

definition create_todo ::
  "object_id \<Rightarrow> datetime \<Rightarrow> datetime \<Rightarrow> TodoCreate \<Rightarrow> collection
    \<Rightarrow> (error + (string \<times> val) list response) \<times> collection" where
  "create_todo new_id utcnow1 utcnow2 todo collection =
     (let todo_dict = model_dump_create todo;
          todo_dict = AList.update ''created_at'' (VDate utcnow1) todo_dict;
          todo_dict = AList.update ''updated_at'' (VDate utcnow2) todo_dict
      in case insert_one collection todo_dict new_id of
           Inl e \<Rightarrow> (Inl e, collection)
         | Inr (inserted_id, collection') \<Rightarrow>
             (case find_one collection' [(''_id'', VOid inserted_id)] of
                None \<Rightarrow> (Inl TypeError, collection')
              | Some created_todo \<Rightarrow> (Inr (201, individual_serial created_todo), collection')))"

definition update_todo ::
  "(string \<Rightarrow> object_id option) \<Rightarrow> datetime \<Rightarrow> string \<Rightarrow> TodoUpdate \<Rightarrow> collection
    \<Rightarrow> (error + (string \<times> val) list response) \<times> collection" where
  "update_todo ObjectId utcnow id' todo collection =
     (case validate_object_id ObjectId id' of
        Inl e \<Rightarrow> (Inl e, collection)
      | Inr object_id \<Rightarrow>
          (case find_one collection [(''_id'', VOid object_id)] of
             None \<Rightarrow> (Inl (not_found id'), collection)
           | Some existing_todo \<Rightarrow>
               (let update_data = filter (\<lambda>(k, v). v \<noteq> VNone) (model_dump todo)
                in if update_data = []
                   then (Inl (HTTPException 400 ''No valid fields to update''), collection)
                   else
                     (let update_data = AList.update ''updated_at'' (VDate utcnow) update_data;
                          collection' = update_one collection [(''_id'', VOid object_id)] update_data
                      in case find_one collection' [(''_id'', VOid object_id)] of
                           None \<Rightarrow> (Inl TypeError, collection')
                         | Some updated_todo \<Rightarrow>
                             (Inr (200, individual_serial updated_todo), collection')))))"

definition toggle_todo ::
  "(string \<Rightarrow> object_id option) \<Rightarrow> datetime \<Rightarrow> string \<Rightarrow> collection
    \<Rightarrow> (error + (string \<times> val) list response) \<times> collection" where
  "toggle_todo ObjectId utcnow id' collection =
     (case validate_object_id ObjectId id' of
        Inl e \<Rightarrow> (Inl e, collection)
      | Inr object_id \<Rightarrow>
          (case find_one collection [(''_id'', VOid object_id)] of
             None \<Rightarrow> (Inl (not_found id'), collection)
           | Some todo \<Rightarrow>
               (let new_status = (\<not> truthy (get todo ''complete'' (VBool False)));
                    collection' = update_one collection [(''_id'', VOid object_id)]
                      [(''complete'', VBool new_status), (''updated_at'', VDate utcnow)]
                in case find_one collection' [(''_id'', VOid object_id)] of
                     None \<Rightarrow> (Inl TypeError, collection')
                   | Some updated_todo \<Rightarrow>
                       (Inr (200, individual_serial updated_todo), collection'))))"

definition delete_todo ::
  "(string \<Rightarrow> object_id option) \<Rightarrow> string \<Rightarrow> collection
    \<Rightarrow> (error + unit response) \<times> collection" where
  "delete_todo ObjectId id' collection =
     (case validate_object_id ObjectId id' of
        Inl e \<Rightarrow> (Inl e, collection)
      | Inr object_id \<Rightarrow>
          (case delete_one collection [(''_id'', VOid object_id)] of
             (deleted_count, collection') \<Rightarrow>
               if deleted_count = 0 then (Inl (not_found id'), collection')
               else (Inr (204, ()), collection')))"

definition delete_completed_todos ::
  "collection \<Rightarrow> (error + (string \<times> val) list response) \<times> collection" where
  "delete_completed_todos collection =
     (case delete_many collection [(''complete'', VBool True)] of
        (deleted_count, collection') \<Rightarrow>
          (Inr (200, [(''message'', VStr (''Deleted '' @ str_nat deleted_count @ '' completed todos''))]),
           collection'))"

text \<open>
  The numbers of the statistics: Python's \<^verbatim>\<open>int\<close>, and its \<^verbatim>\<open>float\<close> as a type
  parameter. The float operations the handler uses are parameters: \<open>truediv\<close> is
  \<^verbatim>\<open>int / int\<close>, \<open>mul\<close> is \<^verbatim>\<open>float * int\<close> and \<open>round'\<close> is
  \<^verbatim>\<open>round(float, ndigits)\<close>.
\<close>

datatype 'f number = PyInt int | PyFloat 'f

definition get_todo_stats ::
  "(int \<Rightarrow> int \<Rightarrow> 'f) \<Rightarrow> ('f \<Rightarrow> int \<Rightarrow> 'f) \<Rightarrow> ('f \<Rightarrow> int \<Rightarrow> 'f) \<Rightarrow> collection
    \<Rightarrow> (error + (string \<times> 'f number) list response) \<times> collection" where
  "get_todo_stats truediv mul round' collection =
     (let total = int (count_documents collection []);
          completed = int (count_documents collection [(''complete'', VBool True)]);
          pending = total - completed
      in (Inr (200,
            [(''total'', PyInt total),
             (''completed'', PyInt completed),
             (''pending'', PyInt pending),
             (''completion_rate'',
                if total > 0 then PyFloat (round' (mul (truediv completed total) 100) 2)
                else PyInt 0)]),
          collection))"

text \<open>
  A constructor for the worked examples: it accepts the strings of 24 hexadecimal digits.
\<close>

definition sample_ObjectId :: "string \<Rightarrow> object_id option" where
  "sample_ObjectId s =
     (if length s = 24 \<and> list_all (\<lambda>c. c \<in> set ''0123456789abcdefABCDEF'') s then Some s
      else None)"

section \<open>The book models\<close>

text \<open>
  \<^verbatim>\<open>Book\<close> of \<^verbatim>\<open>SQL/models.py\<close> (integer key) and of \<^verbatim>\<open>basics.py\<close> (UUID key,
  represented by its text). The fields hold the attribute values of the Python object,
  so each of them may be \<^verbatim>\<open>None\<close>: \<^verbatim>\<open>setattr\<close> and \<^verbatim>\<open>model_copy\<close> store what
  they are given. In the relational variant the constraints of the table are checked
  when the row is written.
\<close>

record 'i Book =
  book_id :: 'i
  title :: "string option"
  author :: "string option"
  description :: "string option"
  rating :: "int option"

text \<open>
  \<^verbatim>\<open>BookUpdate\<close> (the same fields in \<^verbatim>\<open>SQL/schemas.py\<close> and \<^verbatim>\<open>basics.py\<close>);
  \<open>bu_fields_set\<close> is the set of the fields the request body gave. The schema
  lets every field be null, and it has checked a rating that is not null to lie within 0
  and 100 before the handler runs.
\<close>

record BookUpdate =
  bu_title :: "string option"
  bu_author :: "string option"
  bu_description :: "string option"
  bu_rating :: "int option"
  bu_fields_set :: "string set"

text \<open>An entry of the dictionary \<^verbatim>\<open>model_dump(exclude_unset=True)\<close>: a field and its value.\<close>

datatype item =
    Title "string option"
  | Author "string option"
  | Description "string option"
  | Rating "int option"

definition model_dump_exclude_unset :: "BookUpdate \<Rightarrow> item list" where
  "model_dump_exclude_unset book_data =
     (if ''title'' \<in> bu_fields_set book_data then [Title (bu_title book_data)] else []) @
     (if ''author'' \<in> bu_fields_set book_data then [Author (bu_author book_data)] else []) @
     (if ''description'' \<in> bu_fields_set book_data then [Description (bu_description book_data)] else []) @
     (if ''rating'' \<in> bu_fields_set book_data then [Rating (bu_rating book_data)] else [])"

fun setattr :: "'i Book \<Rightarrow> item \<Rightarrow> 'i Book" where
  "setattr book (Title v) = book\<lparr>title := v\<rparr>"
| "setattr book (Author v) = book\<lparr>author := v\<rparr>"
| "setattr book (Description v) = book\<lparr>description := v\<rparr>"
| "setattr book (Rating v) = book\<lparr>rating := v\<rparr>"

text \<open>\<^verbatim>\<open>for field, value in update_data.items(): setattr(book, field, value)\<close>\<close>

definition set_all :: "'i Book \<Rightarrow> item list \<Rightarrow> 'i Book" where
  "set_all book update_data = fold (\<lambda>it b. setattr b it) update_data book"

section \<open>The book handlers over the relational table\<close>

type_synonym table = "int Book list"

text \<open>
  An integer column of the table holds a signed 64-bit value. A Python integer outside
  that range cannot be bound as a parameter of a statement: the driver raises
  \<^verbatim>\<open>OverflowError\<close> when the statement is executed.
\<close>

definition int64 :: "int \<Rightarrow> bool" where
  "int64 i = (- (2 ^ 63) \<le> i \<and> i < 2 ^ 63)"

text \<open>\<^verbatim>\<open>db.query(Book).filter(Book.id == book_id).first()\<close>\<close>

definition first_by_id :: "int \<Rightarrow> table \<Rightarrow> error + int Book option" where
  "first_by_id i db =
     (if int64 i then Inr (List.find (\<lambda>b. book_id b = i) db) else Inl OverflowError)"

text \<open>
  The constraints of \<^verbatim>\<open>SQL/models.py\<close>: \<^verbatim>\<open>nullable=False\<close> on title, author and
  rating, and the check \<^verbatim>\<open>rating >= 0 AND rating <= 100\<close>.
\<close>

definition row_ok :: "int Book \<Rightarrow> bool" where
  "row_ok b =
     (title b \<noteq> None \<and> author b \<noteq> None \<and>
      (case rating b of None \<Rightarrow> False | Some r \<Rightarrow> 0 \<le> r \<and> r \<le> 100))"

text \<open>
  \<^verbatim>\<open>db.commit()\<close> after the attributes of \<open>book\<close> were set: a changed object is
  written to the row of its key, and the write fails when the new row breaks a constraint.
\<close>

definition commit :: "table \<Rightarrow> int Book \<Rightarrow> int Book \<Rightarrow> error + table" where
  "commit db book book' =
     (if book' = book then Inr db
      else if row_ok book' then Inr (map (\<lambda>b. if book_id b = book_id book then book' else b) db)
      else Inl IntegrityError)"

definition book_not_found :: "string \<Rightarrow> error" where
  "book_not_found i = HTTPException 404 (''Book with ID '' @ i @ '' not found'')"

definition update_book ::
  "int \<Rightarrow> BookUpdate \<Rightarrow> table \<Rightarrow> (error + int Book response) \<times> table" where
  "update_book book_id' book_data db =
     (case first_by_id book_id' db of
        Inl e \<Rightarrow> (Inl e, db)
      | Inr None \<Rightarrow> (Inl (book_not_found (str_int book_id')), db)
      | Inr (Some book) \<Rightarrow>
          (let update_data = model_dump_exclude_unset book_data;
               book' = set_all book update_data
           in case commit db book book' of
                Inl e \<Rightarrow> (Inl e, db)
              | Inr db' \<Rightarrow>
                  (case first_by_id (book_id book') db' of
                     Inl e \<Rightarrow> (Inl e, db')
                   | Inr None \<Rightarrow> (Inl InvalidRequestError, db')
                   | Inr (Some refreshed) \<Rightarrow> (Inr (200, refreshed), db'))))"

definition delete_all_books ::
  "table \<Rightarrow> (error + (string \<times> val) list response) \<times> table" where
  "delete_all_books db =
     (let count = length db
      in (Inr (200, [(''message'', VStr (''Successfully deleted '' @ str_nat count @ '' book(s)''))]),
          []))"

subsection \<open>Search\<close>

text \<open>
  \<^verbatim>\<open>ilike\<close> is rendered for SQLite as \<^verbatim>\<open>lower(x) LIKE lower(pattern)\<close>. In a
  pattern \<^verbatim>\<open>%\<close> stands for any run of characters and \<^verbatim>\<open>_\<close> for any single one;
  there is no escape character. \<^verbatim>\<open>lower\<close> folds the ASCII letters only. A comparison
  with a NULL column is not true, so the row is not selected.
\<close>

definition lower :: "char \<Rightarrow> char" where
  "lower c = (let n = (of_char c :: nat) in if 65 \<le> n \<and> n \<le> 90 then char_of (n + 32) else c)"

fun like :: "string \<Rightarrow> string \<Rightarrow> bool" where
  "like [] [] = True"
| "like (c # cs) [] = False"
| "like [] (p # ps) = (p = CHR ''%'' \<and> like [] ps)"
| "like (c # cs) (p # ps) =
     (if p = CHR ''%'' then like (c # cs) ps \<or> like cs (p # ps)
      else (p = CHR ''_'' \<or> p = c) \<and> like cs ps)"

definition ilike :: "string option \<Rightarrow> string \<Rightarrow> bool" where
  "ilike column pattern =
     (case column of None \<Rightarrow> False | Some s \<Rightarrow> like (map lower s) (map lower pattern))"

definition rating_ge :: "int option \<Rightarrow> int \<Rightarrow> bool" where
  "rating_ge column m = (case column of None \<Rightarrow> False | Some r \<Rightarrow> m \<le> r)"

text \<open>
  The filters build the statement; \<^verbatim>\<open>query.all()\<close> executes it, with the minimum
  rating, when one is given, bound as an integer parameter.
\<close>

definition search_books ::
  "string option \<Rightarrow> string option \<Rightarrow> int option \<Rightarrow> table \<Rightarrow> error + int Book list" where
  "search_books title' author' min_rating db =
     (let query = db;
          query = (case title' of
                     None \<Rightarrow> query
                   | Some t \<Rightarrow> if t = [] then query
                       else filter (\<lambda>b. ilike (title b) (''%'' @ t @ ''%'')) query);
          query = (case author' of
                     None \<Rightarrow> query
                   | Some a \<Rightarrow> if a = [] then query
                       else filter (\<lambda>b. ilike (author b) (''%'' @ a @ ''%'')) query);
          query = (case min_rating of
                     None \<Rightarrow> query
                   | Some m \<Rightarrow> filter (\<lambda>b. rating_ge (rating b) m) query)
      in case min_rating of
           None \<Rightarrow> Inr query
         | Some m \<Rightarrow> if int64 m then Inr query else Inl OverflowError)"

section \<open>The in-memory book handlers\<close>

type_synonym uuid = string

text \<open>\<^verbatim>\<open>find_book_by_id\<close>: the first index and book of \<^verbatim>\<open>BOOKS\<close> with the key.\<close>

definition find_book_by_id :: "uuid \<Rightarrow> uuid Book list \<Rightarrow> (nat \<times> uuid Book) option" where
  "find_book_by_id i BOOKS = List.find (\<lambda>(index, book). book_id book = i) (enumerate 0 BOOKS)"

definition update_book_mem ::
  "uuid \<Rightarrow> BookUpdate \<Rightarrow> uuid Book list \<Rightarrow> (error + uuid Book response) \<times> uuid Book list" where
  "update_book_mem book_id' book_data BOOKS =
     (case find_book_by_id book_id' BOOKS of
        None \<Rightarrow> (Inl (book_not_found book_id'), BOOKS)
      | Some (index, existing_book) \<Rightarrow>
          (let update_data = model_dump_exclude_unset book_data;
               updated_book = set_all existing_book update_data
           in (Inr (200, updated_book), BOOKS[index := updated_book])))"

text \<open>
  The body of a successful delete is the message and, under \<^verbatim>\<open>deleted_book\<close>, the
  key and the title of the book removed.
\<close>

definition delete_book_mem ::
  "uuid \<Rightarrow> uuid Book list
    \<Rightarrow> (error + (string \<times> uuid \<times> string option) response) \<times> uuid Book list" where
  "delete_book_mem book_id' BOOKS =
     (case find_book_by_id book_id' BOOKS of
        None \<Rightarrow> (Inl (book_not_found book_id'), BOOKS)
      | Some (index, deleted_book) \<Rightarrow>
          (Inr (200, (''Book deleted successfully'', book_id deleted_book, title deleted_book)),
           take index BOOKS @ drop (Suc index) BOOKS))"

definition delete_all_books_mem ::
  "uuid Book list \<Rightarrow> (error + (string \<times> val) list response) \<times> uuid Book list" where
  "delete_all_books_mem BOOKS =
     (let count = length BOOKS
      in (Inr (200, [(''message'', VStr (''Successfully deleted '' @ str_nat count @ '' book(s)''))]),
          []))"

section \<open>Sample data for the worked examples\<close>

definition oid1 :: object_id where
  "oid1 = ''65f0c0ffee00000000000001''"

definition oid2 :: object_id where
  "oid2 = ''65f0c0ffee00000000000002''"

definition todo1 :: document where
  "todo1 = \<lparr>doc_id = oid1,
     doc_fields = [(''name'', VStr ''milk''), (''description'', VStr ''buy milk''),
       (''complete'', VBool False), (''created_at'', VDate 10), (''updated_at'', VDate 10)]\<rparr>"

definition todo2 :: document where
  "todo2 = \<lparr>doc_id = oid2,
     doc_fields = [(''name'', VStr ''mail''), (''description'', VStr ''send mail''),
       (''complete'', VBool True), (''created_at'', VDate 11), (''updated_at'', VDate 12)]\<rparr>"

definition book1 :: "int Book" where
  "book1 = \<lparr>book_id = 1, title = Some ''Dune'', author = Some ''Herbert'',
     description = None, rating = Some 90\<rparr>"

definition book2 :: "int Book" where
  "book2 = \<lparr>book_id = 2, title = Some ''abc'', author = Some ''Nobody'',
     description = Some ''letters'', rating = Some 40\<rparr>"

definition mem_book1 :: "uuid Book" where
  "mem_book1 = \<lparr>book_id = ''7d444840-9dc0-11d1-b245-5ffdce74fad2'', title = Some ''Dune'',
     author = Some ''Herbert'', description = Some ''Sand'', rating = Some 90\<rparr>"

definition only_rating :: "int \<Rightarrow> BookUpdate" where
  "only_rating r = \<lparr>bu_title = None, bu_author = None, bu_description = None,
     bu_rating = Some r, bu_fields_set = {''rating''}\<rparr>"

text \<open>
  Float operations for the worked examples, on exact rationals: division,
  multiplication, and rounding to a number of decimal places.
\<close>

definition sample_truediv :: "int \<Rightarrow> int \<Rightarrow> rat" where
  "sample_truediv a b = of_int a / of_int b"

definition sample_mul :: "rat \<Rightarrow> int \<Rightarrow> rat" where
  "sample_mul x n = x * of_int n"

definition sample_round :: "rat \<Rightarrow> int \<Rightarrow> rat" where
  "sample_round x ndigits = of_int (round (x * 10 ^ nat ndigits)) / 10 ^ nat ndigits"

section \<open>Sequences of mutations of the todo collection\<close>

text \<open>
  A request that mutates a todo, with the identifier the driver generates for a create
  and the readings of the clock that the handler takes, in the order it takes them.
\<close>

datatype op =
    Create object_id datetime datetime TodoCreate
  | Update datetime string TodoUpdate
  | Toggle datetime string

fun step :: "(string \<Rightarrow> object_id option) \<Rightarrow> op \<Rightarrow> collection \<Rightarrow> collection" where
  "step ObjectId (Create new_id utcnow1 utcnow2 todo) c = snd (create_todo new_id utcnow1 utcnow2 todo c)"
| "step ObjectId (Update utcnow id' todo) c = snd (update_todo ObjectId utcnow id' todo c)"
| "step ObjectId (Toggle utcnow id') c = snd (toggle_todo ObjectId utcnow id' c)"

definition run :: "(string \<Rightarrow> object_id option) \<Rightarrow> op list \<Rightarrow> collection \<Rightarrow> collection" where
  "run ObjectId ops c = fold (step ObjectId) ops c"

fun readings :: "op \<Rightarrow> datetime list" where
  "readings (Create new_id utcnow1 utcnow2 todo) = [utcnow1, utcnow2]"
| "readings (Update utcnow id' todo) = [utcnow]"
| "readings (Toggle utcnow id') = [utcnow]"

text \<open>
  Every todo carries both timestamps, \<^verbatim>\<open>created_at\<close> not after \<^verbatim>\<open>updated_at\<close>
  and not after the time \<open>T\<close>.
\<close>

fun date_of :: "val option \<Rightarrow> datetime option" where
  "date_of (Some (VDate t)) = Some t"
| "date_of v = None"

definition stamped :: "datetime \<Rightarrow> collection \<Rightarrow> bool" where
  "stamped T c =
     list_all (\<lambda>d. case date_of (lookup d ''created_at'') of
                    None \<Rightarrow> False
                  | Some a \<Rightarrow>
                      (case date_of (lookup d ''updated_at'') of
                         None \<Rightarrow> False
                       | Some b \<Rightarrow> a \<le> b \<and> a \<le> T)) c"

section \<open>The search predicates in the words of the specification\<close>

text \<open>
  The case-insensitive substring match of the specification, on a column that may be
  NULL: the parameter, with its ASCII letters folded, occurs as a contiguous run in the
  folded column. Such a definition follows the words of the specification and is
  compared with \<open>ilike\<close>, which follows the source.
\<close>

definition ci_substring :: "string \<Rightarrow> string option \<Rightarrow> bool" where
  "ci_substring needle column =
     (case column of None \<Rightarrow> False | Some s \<Rightarrow> sublist (map lower needle) (map lower s))"

text \<open>The string has none of the wildcards of \<^verbatim>\<open>LIKE\<close>.\<close>

definition plain :: "string \<Rightarrow> bool" where
  "plain t = (CHR ''%'' \<notin> set t \<and> CHR ''_'' \<notin> set t)"

text \<open>
  The predicate of the search in the words of the specification: every parameter that is
  given (and, for a text, not empty) holds of the book. \<open>selected\<close> is the same with the
  pattern match of the source in place of the substring match.
\<close>

definition wanted :: "string option \<Rightarrow> string option \<Rightarrow> int option \<Rightarrow> int Book \<Rightarrow> bool" where
  "wanted title' author' min_rating b =
     ((case title' of None \<Rightarrow> True | Some t \<Rightarrow> t = [] \<or> ci_substring t (title b)) \<and>
      (case author' of None \<Rightarrow> True | Some a \<Rightarrow> a = [] \<or> ci_substring a (author b)) \<and>
      (case min_rating of None \<Rightarrow> True | Some m \<Rightarrow> rating_ge (rating b) m))"

definition selected :: "string option \<Rightarrow> string option \<Rightarrow> int option \<Rightarrow> int Book \<Rightarrow> bool" where
  "selected title' author' min_rating b =
     ((case title' of None \<Rightarrow> True | Some t \<Rightarrow> t = [] \<or> ilike (title b) (''%'' @ t @ ''%'')) \<and>
      (case author' of None \<Rightarrow> True | Some a \<Rightarrow> a = [] \<or> ilike (author b) (''%'' @ a @ ''%'')) \<and>
      (case min_rating of None \<Rightarrow> True | Some m \<Rightarrow> rating_ge (rating b) m))"

definition plain_opt :: "string option \<Rightarrow> bool" where
  "plain_opt x = (case x of None \<Rightarrow> True | Some t \<Rightarrow> plain t)"

section \<open>Malformed identifiers\<close>

text \<open>
  C5. Whenever the string is not a well-formed ObjectId (the constructor raises
  \<^verbatim>\<open>InvalidId\<close>), each of the handlers get, update, toggle and delete answers with the
  400 error "Invalid ID format", whatever the collection holds, and the collection is
  the one it was: the answer is never the 404 of a missing record.
\<close>

theorem malformed_id_rejected:
  assumes "ObjectId id' = None"
  shows "get_todo ObjectId id' c = (Inl (HTTPException 400 (''Invalid ID format: '' @ id')), c)
    \<and> update_todo ObjectId now id' todo c = (Inl (HTTPException 400 (''Invalid ID format: '' @ id')), c)
    \<and> toggle_todo ObjectId now id' c = (Inl (HTTPException 400 (''Invalid ID format: '' @ id')), c)
    \<and> delete_todo ObjectId id' c = (Inl (HTTPException 400 (''Invalid ID format: '' @ id')), c)
    \<and> HTTPException 400 (''Invalid ID format: '' @ id') \<noteq> not_found id'"
  using assms
  by (simp add: get_todo_def update_todo_def toggle_todo_def delete_todo_def
      validate_object_id_def not_found_def)

theorem malformed_id_rejected_witness:
  "sample_ObjectId ''not-an-id'' = None
   \<and> get_todo sample_ObjectId ''not-an-id'' [\<lparr>doc_id = ''0123456789abcdef01234567'', doc_fields = []\<rparr>]
       = (Inl (HTTPException 400 ''Invalid ID format: not-an-id''),
          [\<lparr>doc_id = ''0123456789abcdef01234567'', doc_fields = []\<rparr>])"
proof -
  have h: "sample_ObjectId ''not-an-id'' = None"
    by (simp add: sample_ObjectId_def)
  from malformed_id_rejected [of sample_ObjectId "''not-an-id''", OF h] h show ?thesis
    by simp
qed

section \<open>Facts about the collection operations\<close>

lemma matches_id [simp]: "matches [(''_id'', VOid oid)] d = (doc_id d = oid)"
  by (simp add: matches_def lookup_def)

lemma matches_complete [simp]:
  "matches [(''complete'', VBool True)] d = (map_of (doc_fields d) ''complete'' = Some (VBool True))"
  by (simp add: matches_def lookup_def)

lemma matches_all [simp]: "matches [] d"
  by (simp add: matches_def)

lemma doc_id_set_fields [simp]: "doc_id (set_fields d upd) = doc_id d"
  by (simp add: set_fields_def)

lemma map_of_fold_update:
  "map_of (fold (\<lambda>(k, v). AList.update k v) upd al) = map_of al ++ map_of (rev upd)"
  by (induction upd arbitrary: al) (auto simp: update_conv map_add_def fun_eq_iff split: option.splits)

lemma lookup_set_fields:
  "lookup (set_fields d upd) k =
     (if k = ''_id'' then Some (VOid (doc_id d))
      else case map_of (rev upd) k of None \<Rightarrow> lookup d k | Some v \<Rightarrow> Some v)"
  by (auto simp: lookup_def set_fields_def map_of_fold_update map_add_def split: option.splits)

lemma find_one_id_Some:
  "find_one c [(''_id'', VOid oid)] = Some d \<Longrightarrow> d \<in> set c \<and> doc_id d = oid"
  by (auto simp: find_one_def find_Some_iff)

lemma find_one_id_None:
  "find_one c [(''_id'', VOid oid)] = None \<longleftrightarrow> oid \<notin> set (map doc_id c)"
  by (auto simp: find_one_def find_None_iff)

lemma map_doc_id_update_one [simp]:
  "map doc_id (update_one c [(''_id'', VOid oid)] upd) = map doc_id c"
  by (induction c) auto

lemma find_one_update_one:
  "find_one c [(''_id'', VOid oid)] = Some d \<Longrightarrow>
   find_one (update_one c [(''_id'', VOid oid)] upd) [(''_id'', VOid oid)] = Some (set_fields d upd)"
  by (induction c) (auto simp: find_one_def)

lemma find_one_update_one_None:
  "find_one c [(''_id'', VOid oid)] = None \<Longrightarrow> update_one c [(''_id'', VOid oid)] upd = c"
  by (induction c) (auto simp: find_one_def)

lemma fst_delete_one_id:
  "fst (delete_one c [(''_id'', VOid oid)]) = (if oid \<in> set (map doc_id c) then 1 else 0)"
  by (induction c) (auto split: prod.splits)

lemma snd_delete_one_absent:
  "oid \<notin> set (map doc_id c) \<Longrightarrow> snd (delete_one c [(''_id'', VOid oid)]) = c"
  by (induction c) (auto split: prod.splits)

lemma snd_delete_one_distinct:
  "distinct (map doc_id c) \<Longrightarrow>
   snd (delete_one c [(''_id'', VOid oid)]) = filter (\<lambda>d. doc_id d \<noteq> oid) c"
proof (induction c)
  case Nil
  then show ?case by simp
next
  case (Cons d ds)
  show ?case
  proof (cases "doc_id d = oid")
    case True
    with Cons.prems have "oid \<notin> set (map doc_id ds)" by auto
    then have "filter (\<lambda>d. doc_id d \<noteq> oid) ds = ds"
      by (auto simp: filter_id_conv)
    with True show ?thesis by simp
  next
    case False
    with Cons show ?thesis by (auto split: prod.splits)
  qed
qed

lemma length_update_one [simp]: "length (update_one c q upd) = length c"
  by (induction c) auto


section \<open>Toggle\<close>

text \<open>
  C3. For a well-formed id: when no todo has it, toggle answers with the 404 error and the
  collection is unchanged. When the todo \<open>d\<close> has it, toggle answers 200 with the
  serialized stored todo, whose \<^verbatim>\<open>complete\<close> is the negation of the truth value of
  the old one (of \<open>False\<close> when the field is missing) and whose \<^verbatim>\<open>updated_at\<close> is the
  new reading of the clock; no identifier changes. When the old \<^verbatim>\<open>complete\<close> is a
  boolean \<open>b\<close>, the new one is \<open>\<not> b\<close>, and a second toggle of the same id stores
  \<open>b\<close> again, with the \<^verbatim>\<open>updated_at\<close> of the second call.
\<close>

theorem toggle_todo_involution:
  assumes "ObjectId id' = Some oid"
  shows "(find_one c [(''_id'', VOid oid)] = None \<longrightarrow>
            toggle_todo ObjectId now id' c = (Inl (not_found id'), c))
       \<and> (\<forall>d. find_one c [(''_id'', VOid oid)] = Some d \<longrightarrow>
            (\<exists>d' c'. toggle_todo ObjectId now id' c = (Inr (200, individual_serial d'), c')
               \<and> find_one c' [(''_id'', VOid oid)] = Some d'
               \<and> map doc_id c' = map doc_id c
               \<and> lookup d' ''complete'' = Some (VBool (\<not> truthy (get d ''complete'' (VBool False))))
               \<and> lookup d' ''updated_at'' = Some (VDate now)
               \<and> (\<forall>b. lookup d ''complete'' = Some (VBool b) \<longrightarrow>
                     lookup d' ''complete'' = Some (VBool (\<not> b))
                   \<and> (\<exists>d''. find_one (snd (toggle_todo ObjectId now2 id' c')) [(''_id'', VOid oid)] = Some d''
                          \<and> lookup d'' ''complete'' = Some (VBool b)
                          \<and> lookup d'' ''updated_at'' = Some (VDate now2)))))"
proof (intro conjI impI allI)
  assume "find_one c [(''_id'', VOid oid)] = None"
  with assms show "toggle_todo ObjectId now id' c = (Inl (not_found id'), c)"
    by (simp add: toggle_todo_def validate_object_id_def)
next
  fix d
  assume d: "find_one c [(''_id'', VOid oid)] = Some d"
  let ?q = "[(''_id'', VOid oid)]"
  let ?upd = "\<lambda>d t. [(''complete'', VBool (\<not> truthy (get d ''complete'' (VBool False)))),
                  (''updated_at'', VDate t)]"
  let ?d' = "set_fields d (?upd d now)"
  let ?c' = "update_one c ?q (?upd d now)"
  have f': "find_one ?c' ?q = Some ?d'"
    using d by (rule find_one_update_one)
  have t1: "toggle_todo ObjectId now id' c = (Inr (200, individual_serial ?d'), ?c')"
    using assms d f' by (simp add: toggle_todo_def validate_object_id_def Let_def)
  have cpl: "lookup ?d' ''complete'' = Some (VBool (\<not> truthy (get d ''complete'' (VBool False))))"
    by (simp add: lookup_set_fields)
  have upd: "lookup ?d' ''updated_at'' = Some (VDate now)"
    by (simp add: lookup_set_fields)
  have second: "\<exists>d''. find_one (snd (toggle_todo ObjectId now2 id' ?c')) ?q = Some d''
            \<and> lookup d'' ''complete'' = Some (VBool b)
            \<and> lookup d'' ''updated_at'' = Some (VDate now2)"
    if b: "lookup d ''complete'' = Some (VBool b)" for b
  proof -
    let ?d2 = "set_fields ?d' (?upd ?d' now2)"
    let ?c2 = "update_one ?c' ?q (?upd ?d' now2)"
    have f2: "find_one ?c2 ?q = Some ?d2"
      using f' by (rule find_one_update_one)
    have t2: "toggle_todo ObjectId now2 id' ?c' = (Inr (200, individual_serial ?d2), ?c2)"
      using assms f' f2 by (simp add: toggle_todo_def validate_object_id_def Let_def)
    have "get ?d' ''complete'' (VBool False) = VBool (\<not> b)"
      using b cpl by (simp add: get_def)
    then have "lookup ?d2 ''complete'' = Some (VBool b)"
      by (simp add: lookup_set_fields)
    moreover have "lookup ?d2 ''updated_at'' = Some (VDate now2)"
      by (simp add: lookup_set_fields)
    ultimately show ?thesis using t2 f2 by simp
  qed
  have neg: "lookup ?d' ''complete'' = Some (VBool (\<not> b))"
    if b: "lookup d ''complete'' = Some (VBool b)" for b
    using b cpl by (simp add: get_def)
  show "\<exists>d' c'. toggle_todo ObjectId now id' c = (Inr (200, individual_serial d'), c')
               \<and> find_one c' [(''_id'', VOid oid)] = Some d'
               \<and> map doc_id c' = map doc_id c
               \<and> lookup d' ''complete'' = Some (VBool (\<not> truthy (get d ''complete'' (VBool False))))
               \<and> lookup d' ''updated_at'' = Some (VDate now)
               \<and> (\<forall>b. lookup d ''complete'' = Some (VBool b) \<longrightarrow>
                     lookup d' ''complete'' = Some (VBool (\<not> b))
                   \<and> (\<exists>d''. find_one (snd (toggle_todo ObjectId now2 id' c')) [(''_id'', VOid oid)] = Some d''
                          \<and> lookup d'' ''complete'' = Some (VBool b)
                          \<and> lookup d'' ''updated_at'' = Some (VDate now2)))"
    apply (rule exI [of _ ?d'], rule exI [of _ ?c'])
    apply (intro conjI allI impI)
          apply (rule t1)
         apply (rule f')
        apply simp
       apply (rule cpl)
      apply (rule upd)
     apply (erule neg)
    apply (erule second)
    done
qed

lemma sample_ObjectId_oid1 [simp]: "sample_ObjectId oid1 = Some oid1"
  by (simp add: sample_ObjectId_def oid1_def)

lemma sample_ObjectId_oid2 [simp]: "sample_ObjectId oid2 = Some oid2"
  by (simp add: sample_ObjectId_def oid2_def)

lemma oid1_neq_oid2 [simp]: "oid1 \<noteq> oid2" "oid2 \<noteq> oid1"
  by (simp_all add: oid1_def oid2_def)

lemma doc_id_todo1 [simp]: "doc_id todo1 = oid1"
  by (simp add: todo1_def)

lemma doc_id_todo2 [simp]: "doc_id todo2 = oid2"
  by (simp add: todo2_def)

theorem toggle_todo_involution_witness:
  "sample_ObjectId oid1 = Some oid1
   \<and> find_one [todo1, todo2] [(''_id'', VOid oid1)] = Some todo1
   \<and> lookup todo1 ''complete'' = Some (VBool False)
   \<and> (\<exists>d' c'. toggle_todo sample_ObjectId 20 oid1 [todo1, todo2] = (Inr (200, individual_serial d'), c')
         \<and> lookup d' ''complete'' = Some (VBool True)
         \<and> (\<exists>d''. find_one (snd (toggle_todo sample_ObjectId 21 oid1 c')) [(''_id'', VOid oid1)] = Some d''
               \<and> lookup d'' ''complete'' = Some (VBool False)))"
proof -
  have h: "sample_ObjectId oid1 = Some oid1" by simp
  have f: "find_one [todo1, todo2] [(''_id'', VOid oid1)] = Some todo1"
    by (simp add: find_one_def)
  have l: "lookup todo1 ''complete'' = Some (VBool False)"
    by (simp add: lookup_def todo1_def)
  from toggle_todo_involution [of sample_ObjectId oid1 oid1 "[todo1, todo2]" 20 21, OF h] f l
  show ?thesis
    using h by fastforce
qed

text \<open>The dictionary that \<^verbatim>\<open>update_todo\<close> hands to \<^verbatim>\<open>$set\<close>.\<close>

lemma update_data_empty:
  "filter (\<lambda>(k, v). v \<noteq> VNone) (model_dump todo) = []
    \<longleftrightarrow> tu_name todo = None \<and> tu_description todo = None \<and> tu_complete todo = None"
  by (auto simp: model_dump_def opt_val_def split: option.splits)

lemma update_data_map_of:
  "map_of (rev (AList.update ''updated_at'' (VDate now)
      (filter (\<lambda>(k, v). v \<noteq> VNone) (model_dump todo)))) k =
     (if k = ''name'' then map_option VStr (tu_name todo)
      else if k = ''description'' then map_option VStr (tu_description todo)
      else if k = ''complete'' then map_option VBool (tu_complete todo)
      else if k = ''updated_at'' then Some (VDate now)
      else None)"
  by (cases "tu_name todo"; cases "tu_description todo"; cases "tu_complete todo")
     (simp_all add: model_dump_def opt_val_def)

lemma find_one_index:
  "find_one c [(''_id'', VOid oid)] = Some d \<Longrightarrow>
   \<exists>i<length c. c ! i = d \<and> update_one c [(''_id'', VOid oid)] upd = c[i := set_fields d upd]"
proof (induction c)
  case Nil
  then show ?case by (simp add: find_one_def)
next
  case (Cons a c)
  show ?case
  proof (cases "doc_id a = oid")
    case True
    with Cons.prems have "a = d" by (simp add: find_one_def)
    with True show ?thesis by (intro exI [of _ 0]) simp
  next
    case False
    with Cons.prems have "find_one c [(''_id'', VOid oid)] = Some d"
      by (simp add: find_one_def)
    from Cons.IH [OF this] obtain i where
      "i < length c" "c ! i = d" "update_one c [(''_id'', VOid oid)] upd = c[i := set_fields d upd]"
      by blast
    with False show ?thesis by (intro exI [of _ "Suc i"]) simp
  qed
qed

text \<open>What a successful or failed \<^verbatim>\<open>update_todo\<close> returns, for an id that is in the collection.\<close>

lemma update_todo_found:
  assumes "ObjectId id' = Some oid" and "find_one c [(''_id'', VOid oid)] = Some d"
  shows "update_todo ObjectId now id' todo c =
    (if tu_name todo = None \<and> tu_description todo = None \<and> tu_complete todo = None
     then (Inl (HTTPException 400 ''No valid fields to update''), c)
     else (Inr (200, individual_serial (set_fields d (AList.update ''updated_at'' (VDate now)
              (filter (\<lambda>(k, v). v \<noteq> VNone) (model_dump todo))))),
           update_one c [(''_id'', VOid oid)] (AList.update ''updated_at'' (VDate now)
              (filter (\<lambda>(k, v). v \<noteq> VNone) (model_dump todo)))))"
proof -
  let ?upd = "AList.update ''updated_at'' (VDate now) (filter (\<lambda>(k, v). v \<noteq> VNone) (model_dump todo))"
  have "find_one (update_one c [(''_id'', VOid oid)] ?upd) [(''_id'', VOid oid)] = Some (set_fields d ?upd)"
    using assms(2) by (rule find_one_update_one)
  then show ?thesis
    using assms update_data_empty [of todo]
    by (simp add: update_todo_def validate_object_id_def Let_def)
qed

lemma update_todo_store:
  "snd (update_todo ObjectId now id' todo c) = c \<or>
   (\<exists>oid d. ObjectId id' = Some oid \<and> find_one c [(''_id'', VOid oid)] = Some d \<and>
      snd (update_todo ObjectId now id' todo c) =
        update_one c [(''_id'', VOid oid)] (AList.update ''updated_at'' (VDate now)
              (filter (\<lambda>(k, v). v \<noteq> VNone) (model_dump todo))))"
proof (cases "ObjectId id'")
  case None
  then show ?thesis by (simp add: update_todo_def validate_object_id_def)
next
  case (Some oid)
  show ?thesis
  proof (cases "find_one c [(''_id'', VOid oid)]")
    case None
    with Some show ?thesis by (simp add: update_todo_def validate_object_id_def)
  next
    case (Some d)
    with \<open>ObjectId id' = Some oid\<close> show ?thesis
      by (simp add: update_todo_found)
  qed
qed

section \<open>Null fields of a todo update\<close>

text \<open>
  C10. For an id of a stored todo \<open>d\<close>: the answer of the update and the new collection
  do not depend on which fields the body gave, only on the values, so a null field counts
  as an omitted one. A field of name, description and complete whose value is null is
  the same in the stored todo after the update as before, and none of the three is null
  after the update unless it was null before; only the todo at the position of \<open>d\<close> can
  differ. When all three values are null, the answer is the 400 error "No valid fields to
  update" and the collection is unchanged.
\<close>

theorem update_todo_null_as_omitted:
  assumes "ObjectId id' = Some oid" and "find_one c [(''_id'', VOid oid)] = Some d"
  shows "update_todo ObjectId now id' (todo\<lparr>tu_fields_set := fs\<rparr>) c = update_todo ObjectId now id' todo c
    \<and> (tu_name todo = None \<and> tu_description todo = None \<and> tu_complete todo = None \<longrightarrow>
         update_todo ObjectId now id' todo c = (Inl (HTTPException 400 ''No valid fields to update''), c))
    \<and> (\<exists>d' i. find_one (snd (update_todo ObjectId now id' todo c)) [(''_id'', VOid oid)] = Some d'
         \<and> i < length c \<and> c ! i = d \<and> snd (update_todo ObjectId now id' todo c) = c[i := d']
         \<and> (tu_name todo = None \<longrightarrow> lookup d' ''name'' = lookup d ''name'')
         \<and> (tu_description todo = None \<longrightarrow> lookup d' ''description'' = lookup d ''description'')
         \<and> (tu_complete todo = None \<longrightarrow> lookup d' ''complete'' = lookup d ''complete'')
         \<and> (\<forall>k \<in> {''name'', ''description'', ''complete''}.
               lookup d' k = Some VNone \<longrightarrow> lookup d k = Some VNone))"
proof (intro conjI)
  have md: "model_dump (todo\<lparr>tu_fields_set := fs\<rparr>) = model_dump todo"
    by (simp add: model_dump_def)
  show "update_todo ObjectId now id' (todo\<lparr>tu_fields_set := fs\<rparr>) c = update_todo ObjectId now id' todo c"
    unfolding update_todo_def md by (rule refl)
  show "tu_name todo = None \<and> tu_description todo = None \<and> tu_complete todo = None \<longrightarrow>
         update_todo ObjectId now id' todo c = (Inl (HTTPException 400 ''No valid fields to update''), c)"
    using assms by (simp add: update_todo_found)
  let ?upd = "AList.update ''updated_at'' (VDate now) (filter (\<lambda>(k, v). v \<noteq> VNone) (model_dump todo))"
  from find_one_index [OF assms(2), of ?upd] obtain i where
    i: "i < length c" "c ! i = d" "update_one c [(''_id'', VOid oid)] ?upd = c[i := set_fields d ?upd]"
    by blast
  show "\<exists>d' i. find_one (snd (update_todo ObjectId now id' todo c)) [(''_id'', VOid oid)] = Some d'
         \<and> i < length c \<and> c ! i = d \<and> snd (update_todo ObjectId now id' todo c) = c[i := d']
         \<and> (tu_name todo = None \<longrightarrow> lookup d' ''name'' = lookup d ''name'')
         \<and> (tu_description todo = None \<longrightarrow> lookup d' ''description'' = lookup d ''description'')
         \<and> (tu_complete todo = None \<longrightarrow> lookup d' ''complete'' = lookup d ''complete'')
         \<and> (\<forall>k \<in> {''name'', ''description'', ''complete''}.
               lookup d' k = Some VNone \<longrightarrow> lookup d k = Some VNone)"
  proof (cases "tu_name todo = None \<and> tu_description todo = None \<and> tu_complete todo = None")
    case True
    then have "snd (update_todo ObjectId now id' todo c) = c"
      using assms by (simp add: update_todo_found)
    moreover have "c[i := d] = c"
      using i by (metis list_update_id)
    ultimately show ?thesis
      using assms(2) i by (intro exI [of _ d] exI [of _ i]) simp
  next
    case False
    have s: "snd (update_todo ObjectId now id' todo c) = update_one c [(''_id'', VOid oid)] ?upd"
      by (subst update_todo_found [of ObjectId id' oid c d, OF assms]) (use False in auto)
    have f: "find_one (update_one c [(''_id'', VOid oid)] ?upd) [(''_id'', VOid oid)] = Some (set_fields d ?upd)"
      using assms(2) by (rule find_one_update_one)
    show ?thesis
      apply (intro exI [of _ "set_fields d ?upd"] exI [of _ i])
      using s f i
      by (auto simp: lookup_set_fields update_data_map_of split: option.splits)
  qed
qed

theorem update_todo_null_as_omitted_witness:
  "sample_ObjectId oid1 = Some oid1
   \<and> find_one [todo1, todo2] [(''_id'', VOid oid1)] = Some todo1
   \<and> update_todo sample_ObjectId 20 oid1
        \<lparr>tu_name = None, tu_description = None, tu_complete = None, tu_fields_set = {''name''}\<rparr>
        [todo1, todo2]
      = (Inl (HTTPException 400 ''No valid fields to update''), [todo1, todo2])"
proof -
  have h: "sample_ObjectId oid1 = Some oid1" by simp
  have f: "find_one [todo1, todo2] [(''_id'', VOid oid1)] = Some todo1"
    by (simp add: find_one_def)
  from update_todo_null_as_omitted [where ObjectId = sample_ObjectId and id' = oid1 and now = 20
      and todo = "\<lparr>tu_name = None, tu_description = None, tu_complete = None, tu_fields_set = {''name''}\<rparr>",
      OF h f]
  show ?thesis
    using h f by simp
qed

section \<open>Facts about the book operations\<close>

lemma set_all_fields:
  "book_id (set_all b (model_dump_exclude_unset p)) = book_id b"
  "title (set_all b (model_dump_exclude_unset p)) =
     (if ''title'' \<in> bu_fields_set p then bu_title p else title b)"
  "author (set_all b (model_dump_exclude_unset p)) =
     (if ''author'' \<in> bu_fields_set p then bu_author p else author b)"
  "description (set_all b (model_dump_exclude_unset p)) =
     (if ''description'' \<in> bu_fields_set p then bu_description p else description b)"
  "rating (set_all b (model_dump_exclude_unset p)) =
     (if ''rating'' \<in> bu_fields_set p then bu_rating p else rating b)"
  by (simp_all add: set_all_def model_dump_exclude_unset_def)

lemma set_all_empty: "bu_fields_set p = {} \<Longrightarrow> set_all b (model_dump_exclude_unset p) = b"
  by (simp add: set_all_def model_dump_exclude_unset_def)

lemma first_by_id_Some:
  "first_by_id i db = Inr (Some b) \<Longrightarrow> b \<in> set db \<and> book_id b = i \<and> int64 i"
  by (auto simp: first_by_id_def find_Some_iff split: if_splits)

lemma first_by_id_map:
  "first_by_id i db = Inr (Some b) \<Longrightarrow> book_id b' = i \<Longrightarrow>
   first_by_id i (map (\<lambda>x. if book_id x = i then b' else x) db) = Inr (Some b')"
  by (induction db) (auto simp: first_by_id_def split: if_splits)

lemma update_book_found:
  assumes "first_by_id i db = Inr (Some book)"
  shows "update_book i p db =
    (let book' = set_all book (model_dump_exclude_unset p)
     in if book' = book then (Inr (200, book), db)
        else if row_ok book'
          then (Inr (200, book'), map (\<lambda>b. if book_id b = i then book' else b) db)
          else (Inl IntegrityError, db))"
proof -
  let ?b = "set_all book (model_dump_exclude_unset p)"
  have i: "book_id book = i" "book_id ?b = i"
    using first_by_id_Some [OF assms] by (simp_all add: set_all_fields)
  have "first_by_id i (map (\<lambda>x. if book_id x = i then ?b else x) db) = Inr (Some ?b)"
    using assms i by (simp add: first_by_id_map)
  then show ?thesis
    using assms i by (simp add: update_book_def commit_def Let_def)
qed

lemma find_book_by_id_Some:
  "find_book_by_id i BOOKS = Some (index, book) \<Longrightarrow>
   index < length BOOKS \<and> BOOKS ! index = book \<and> book_id book = i
   \<and> (\<forall>j<index. book_id (BOOKS ! j) \<noteq> i)"
  unfolding find_book_by_id_def find_Some_iff
  by (auto simp: nth_enumerate_eq)

lemma find_book_by_id_None:
  "find_book_by_id i BOOKS = None \<longleftrightarrow> i \<notin> set (map book_id BOOKS)"
  unfolding find_book_by_id_def find_None_iff
  by (force simp: enumerate_eq_zip in_set_zip in_set_conv_nth)

lemma find_book_by_id_intro:
  "index < length BOOKS \<Longrightarrow> book_id (BOOKS ! index) = i \<Longrightarrow>
   \<forall>j<index. book_id (BOOKS ! j) \<noteq> i \<Longrightarrow>
   find_book_by_id i BOOKS = Some (index, BOOKS ! index)"
  unfolding find_book_by_id_def find_Some_iff
  by (intro exI [of _ index]) (auto simp: nth_enumerate_eq)

text \<open>
  A valid row stays valid under an update that sets neither title, author nor rating to
  \<^verbatim>\<open>None\<close> and keeps a rating that it sets within 0 and 100.
\<close>

lemma row_ok_set_all:
  assumes "row_ok book"
    and "''title'' \<in> bu_fields_set p \<longrightarrow> bu_title p \<noteq> None"
    and "''author'' \<in> bu_fields_set p \<longrightarrow> bu_author p \<noteq> None"
    and "''rating'' \<in> bu_fields_set p \<longrightarrow> (\<exists>r. bu_rating p = Some r \<and> 0 \<le> r \<and> r \<le> 100)"
  shows "row_ok (set_all book (model_dump_exclude_unset p))"
  using assms by (auto simp: row_ok_def set_all_fields split: option.splits)

section \<open>Empty updates\<close>

text \<open>
  C4. For the id of a stored todo, an update whose three values are all \<^verbatim>\<open>None\<close> is
  answered with the 400 error "No valid fields to update" and the collection is
  unchanged. For the id of a stored book, an update that gives no field is answered with
  200 and the stored book, and the table is unchanged.
\<close>

theorem empty_update_policies:
  "(ObjectId id' = Some oid \<and> find_one c [(''_id'', VOid oid)] = Some d
      \<and> tu_name todo = None \<and> tu_description todo = None \<and> tu_complete todo = None
     \<longrightarrow> update_todo ObjectId now id' todo c
          = (Inl (HTTPException 400 ''No valid fields to update''), c))
   \<and> (first_by_id i db = Inr (Some book) \<and> bu_fields_set p = {}
     \<longrightarrow> update_book i p db = (Inr (200, book), db))"
proof (intro conjI impI)
  assume "ObjectId id' = Some oid \<and> find_one c [(''_id'', VOid oid)] = Some d
      \<and> tu_name todo = None \<and> tu_description todo = None \<and> tu_complete todo = None"
  then show "update_todo ObjectId now id' todo c
          = (Inl (HTTPException 400 ''No valid fields to update''), c)"
    using update_todo_found [of ObjectId id' oid c d now todo] by simp
next
  assume "first_by_id i db = Inr (Some book) \<and> bu_fields_set p = {}"
  then show "update_book i p db = (Inr (200, book), db)"
    by (simp add: update_book_found set_all_empty Let_def)
qed

theorem empty_update_policies_witness:
  "sample_ObjectId oid1 = Some oid1 \<and> find_one [todo1, todo2] [(''_id'', VOid oid1)] = Some todo1
   \<and> update_todo sample_ObjectId 20 oid1
        \<lparr>tu_name = None, tu_description = None, tu_complete = None, tu_fields_set = {}\<rparr>
        [todo1, todo2]
      = (Inl (HTTPException 400 ''No valid fields to update''), [todo1, todo2])
   \<and> first_by_id 1 [book1, book2] = Inr (Some book1)
   \<and> update_book 1
        \<lparr>bu_title = None, bu_author = None, bu_description = None, bu_rating = None,
          bu_fields_set = {}\<rparr> [book1, book2]
      = (Inr (200, book1), [book1, book2])"
proof -
  have h: "sample_ObjectId oid1 = Some oid1" by simp
  have f: "find_one [todo1, todo2] [(''_id'', VOid oid1)] = Some todo1"
    by (simp add: find_one_def)
  have g: "first_by_id 1 [book1, book2] = Inr (Some book1)"
    by (simp add: first_by_id_def int64_def book1_def)
  from empty_update_policies [where ObjectId = sample_ObjectId and id' = oid1 and oid = oid1
      and c = "[todo1, todo2]" and d = todo1 and now = 20
      and todo = "\<lparr>tu_name = None, tu_description = None, tu_complete = None, tu_fields_set = {}\<rparr>"
      and i = 1 and db = "[book1, book2]" and book = book1
      and p = "\<lparr>bu_title = None, bu_author = None, bu_description = None, bu_rating = None,
          bu_fields_set = {}\<rparr>"]
  show ?thesis
    using h f g by simp
qed

section \<open>Partial updates\<close>

text \<open>
  C1, as stated, at a stored todo and an update that gives none of name, description
  and complete: the handler does not return the record, it raises the 400 error.
\<close>

theorem partial_update_counterexample:
  "sample_ObjectId oid1 = Some oid1
   \<and> find_one [todo1, todo2] [(''_id'', VOid oid1)] = Some todo1
   \<and> update_todo sample_ObjectId 20 oid1
        \<lparr>tu_name = None, tu_description = None, tu_complete = None, tu_fields_set = {}\<rparr>
        [todo1, todo2]
      = (Inl (HTTPException 400 ''No valid fields to update''), [todo1, todo2])"
  by (simp add: update_todo_found [of sample_ObjectId oid1 oid1 "[todo1, todo2]" todo1] find_one_def)

text \<open>
  The relational update at a body that gives the title as null: the commit fails on the
  \<^verbatim>\<open>NOT NULL\<close> constraint and the table keeps the book.
\<close>

lemma update_book_null_title:
  "update_book 1
     \<lparr>bu_title = None, bu_author = None, bu_description = None, bu_rating = None,
       bu_fields_set = {''title''}\<rparr> [book1, book2]
   = (Inl IntegrityError, [book1, book2])"
proof -
  have "first_by_id 1 [book1, book2] = Inr (Some book1)"
    by (simp add: first_by_id_def int64_def book1_def)
  then show ?thesis
    by (subst update_book_found [of 1 "[book1, book2]" book1])
      (simp_all add: set_all_def model_dump_exclude_unset_def book1_def row_ok_def Let_def)
qed

text \<open>
  C1, amended. Relational variant: for the id of a stored book and an update that
  leaves the book as it is or turns it into a row that satisfies the constraints of the
  table, the handler answers 200 with the book that the table then holds under that id;
  in that book every field that the body did not give has its prior value and every
  given field has the given value, and the rows of other ids are unchanged. In-memory
  variant: for every update of a stored book the handler answers 200 with the book that
  the list then holds at the same index, with the same frame property. Todo variant:
  when at least one of the three values is given, the handler answers 200 with the
  serialized stored todo: the body carries the id, the name, description and complete of
  the stored todo (or their defaults), and its timestamps; each of name, description and
  complete whose value is \<^verbatim>\<open>None\<close> is as before, as are the identifier and
  \<^verbatim>\<open>created_at\<close>, each given value is stored, \<^verbatim>\<open>updated_at\<close> is the reading of
  the clock, and no other todo changes. When none of the three values is given, the
  handler raises the 400 error "No valid fields to update" and the collection is
  unchanged.
\<close>

theorem partial_update_frame:
  "(first_by_id i db = Inr (Some book)
      \<and> (set_all book (model_dump_exclude_unset p) = book
          \<or> row_ok (set_all book (model_dump_exclude_unset p))) \<longrightarrow>
      (\<exists>ret db'. update_book i p db = (Inr (200, ret), db')
            \<and> first_by_id i db' = Inr (Some ret) \<and> book_id ret = i
            \<and> length db' = length db
            \<and> (\<forall>j<length db. book_id (db ! j) \<noteq> i \<longrightarrow> db' ! j = db ! j)
            \<and> title ret = (if ''title'' \<in> bu_fields_set p then bu_title p else title book)
            \<and> author ret = (if ''author'' \<in> bu_fields_set p then bu_author p else author book)
            \<and> description ret
                = (if ''description'' \<in> bu_fields_set p then bu_description p else description book)
            \<and> rating ret = (if ''rating'' \<in> bu_fields_set p then bu_rating p else rating book)))
   \<and> (find_book_by_id u BOOKS = Some (index, mbook) \<longrightarrow>
      (\<exists>ret. update_book_mem u p BOOKS = (Inr (200, ret), BOOKS[index := ret])
            \<and> find_book_by_id u (BOOKS[index := ret]) = Some (index, ret) \<and> book_id ret = u
            \<and> title ret = (if ''title'' \<in> bu_fields_set p then bu_title p else title mbook)
            \<and> author ret = (if ''author'' \<in> bu_fields_set p then bu_author p else author mbook)
            \<and> description ret
                = (if ''description'' \<in> bu_fields_set p then bu_description p else description mbook)
            \<and> rating ret = (if ''rating'' \<in> bu_fields_set p then bu_rating p else rating mbook)))
   \<and> (ObjectId id' = Some oid \<and> find_one c [(''_id'', VOid oid)] = Some d
        \<and> \<not> (tu_name todo = None \<and> tu_description todo = None \<and> tu_complete todo = None) \<longrightarrow>
      (\<exists>d' k. update_todo ObjectId now id' todo c
              = (Inr (200,
                   [(''id'', VStr oid),
                    (''name'', case lookup d' ''name'' of None \<Rightarrow> VStr [] | Some v \<Rightarrow> v),
                    (''description'', case lookup d' ''description'' of None \<Rightarrow> VStr [] | Some v \<Rightarrow> v),
                    (''complete'', case lookup d' ''complete'' of None \<Rightarrow> VBool False | Some v \<Rightarrow> v),
                    (''created_at'', case lookup d' ''created_at'' of None \<Rightarrow> VNone | Some v \<Rightarrow> v),
                    (''updated_at'', VDate now)]),
                 c[k := d'])
            \<and> k < length c \<and> c ! k = d
            \<and> find_one (c[k := d']) [(''_id'', VOid oid)] = Some d'
            \<and> doc_id d' = doc_id d
            \<and> lookup d' ''name'' = (case tu_name todo of None \<Rightarrow> lookup d ''name'' | Some n \<Rightarrow> Some (VStr n))
            \<and> lookup d' ''description''
                = (case tu_description todo of None \<Rightarrow> lookup d ''description'' | Some n \<Rightarrow> Some (VStr n))
            \<and> lookup d' ''complete''
                = (case tu_complete todo of None \<Rightarrow> lookup d ''complete'' | Some b \<Rightarrow> Some (VBool b))
            \<and> lookup d' ''created_at'' = lookup d ''created_at''
            \<and> lookup d' ''updated_at'' = Some (VDate now)))
   \<and> (ObjectId id' = Some oid \<and> find_one c [(''_id'', VOid oid)] = Some d
        \<and> tu_name todo = None \<and> tu_description todo = None \<and> tu_complete todo = None \<longrightarrow>
      update_todo ObjectId now id' todo c = (Inl (HTTPException 400 ''No valid fields to update''), c))"
proof (intro conjI impI)
  assume a: "first_by_id i db = Inr (Some book)
      \<and> (set_all book (model_dump_exclude_unset p) = book
          \<or> row_ok (set_all book (model_dump_exclude_unset p)))"
  let ?b = "set_all book (model_dump_exclude_unset p)"
  from a have f: "first_by_id i db = Inr (Some book)" by simp
  have i: "book_id book = i"
    using first_by_id_Some [OF f] by simp
  from a consider (same) "?b = book" | (ok) "?b \<noteq> book" "row_ok ?b"
    by blast
  then show "\<exists>ret db'. update_book i p db = (Inr (200, ret), db')
            \<and> first_by_id i db' = Inr (Some ret) \<and> book_id ret = i
            \<and> length db' = length db
            \<and> (\<forall>j<length db. book_id (db ! j) \<noteq> i \<longrightarrow> db' ! j = db ! j)
            \<and> title ret = (if ''title'' \<in> bu_fields_set p then bu_title p else title book)
            \<and> author ret = (if ''author'' \<in> bu_fields_set p then bu_author p else author book)
            \<and> description ret
                = (if ''description'' \<in> bu_fields_set p then bu_description p else description book)
            \<and> rating ret = (if ''rating'' \<in> bu_fields_set p then bu_rating p else rating book)"
  proof cases
    case same
    have "update_book i p db = (Inr (200, ?b), db)"
      using f same by (simp add: update_book_found Let_def)
    moreover have "first_by_id i db = Inr (Some ?b)"
      using f same by simp
    ultimately show ?thesis
      using i by (intro exI [of _ ?b] exI [of _ db]) (simp add: set_all_fields)
  next
    case ok
    let ?db = "map (\<lambda>b. if book_id b = i then ?b else b) db"
    have "update_book i p db = (Inr (200, ?b), ?db)"
      using f ok by (simp add: update_book_found Let_def)
    moreover have "first_by_id i ?db = Inr (Some ?b)"
      using f i by (simp add: first_by_id_map set_all_fields)
    ultimately show ?thesis
      using i by (intro exI [of _ ?b] exI [of _ ?db]) (simp add: set_all_fields)
  qed
next
  assume f: "find_book_by_id u BOOKS = Some (index, mbook)"
  let ?b = "set_all mbook (model_dump_exclude_unset p)"
  from find_book_by_id_Some [OF f] have
    ix: "index < length BOOKS" "BOOKS ! index = mbook" "book_id mbook = u"
      "\<forall>j<index. book_id (BOOKS ! j) \<noteq> u"
    by simp_all
  have "find_book_by_id u (BOOKS[index := ?b]) = Some (index, (BOOKS[index := ?b]) ! index)"
    using ix by (intro find_book_by_id_intro) (simp_all add: set_all_fields)
  then have g: "find_book_by_id u (BOOKS[index := ?b]) = Some (index, ?b)"
    using ix by simp
  have "update_book_mem u p BOOKS = (Inr (200, ?b), BOOKS[index := ?b])"
    using f by (simp add: update_book_mem_def Let_def)
  with g show "\<exists>ret. update_book_mem u p BOOKS = (Inr (200, ret), BOOKS[index := ret])
            \<and> find_book_by_id u (BOOKS[index := ret]) = Some (index, ret) \<and> book_id ret = u
            \<and> title ret = (if ''title'' \<in> bu_fields_set p then bu_title p else title mbook)
            \<and> author ret = (if ''author'' \<in> bu_fields_set p then bu_author p else author mbook)
            \<and> description ret
                = (if ''description'' \<in> bu_fields_set p then bu_description p else description mbook)
            \<and> rating ret = (if ''rating'' \<in> bu_fields_set p then bu_rating p else rating mbook)"
    using ix by (intro exI [of _ ?b]) (simp add: set_all_fields)
next
  assume a: "ObjectId id' = Some oid \<and> find_one c [(''_id'', VOid oid)] = Some d
        \<and> \<not> (tu_name todo = None \<and> tu_description todo = None \<and> tu_complete todo = None)"
  let ?upd = "AList.update ''updated_at'' (VDate now) (filter (\<lambda>(k, v). v \<noteq> VNone) (model_dump todo))"
  let ?d = "set_fields d ?upd"
  from a have f: "find_one c [(''_id'', VOid oid)] = Some d" by simp
  have o: "doc_id d = oid"
    using find_one_id_Some [OF f] by simp
  from find_one_index [OF f, of ?upd] obtain k where
    k: "k < length c" "c ! k = d" "update_one c [(''_id'', VOid oid)] ?upd = c[k := ?d]"
    by blast
  have r: "update_todo ObjectId now id' todo c = (Inr (200, individual_serial ?d), c[k := ?d])"
    by (subst update_todo_found [of ObjectId id' oid c d]) (use a k in auto)
  have u: "lookup ?d ''updated_at'' = Some (VDate now)"
    by (simp add: lookup_set_fields update_data_map_of)
  have body: "individual_serial ?d =
      [(''id'', VStr oid),
       (''name'', case lookup ?d ''name'' of None \<Rightarrow> VStr [] | Some v \<Rightarrow> v),
       (''description'', case lookup ?d ''description'' of None \<Rightarrow> VStr [] | Some v \<Rightarrow> v),
       (''complete'', case lookup ?d ''complete'' of None \<Rightarrow> VBool False | Some v \<Rightarrow> v),
       (''created_at'', case lookup ?d ''created_at'' of None \<Rightarrow> VNone | Some v \<Rightarrow> v),
       (''updated_at'', VDate now)]"
    unfolding individual_serial_def get_def str_oid_def u using o by simp
  have g: "find_one (c[k := ?d]) [(''_id'', VOid oid)] = Some ?d"
    using find_one_update_one [OF f, of ?upd] k by simp
  have l: "lookup ?d ''name'' = (case tu_name todo of None \<Rightarrow> lookup d ''name'' | Some n \<Rightarrow> Some (VStr n))"
    "lookup ?d ''description''
       = (case tu_description todo of None \<Rightarrow> lookup d ''description'' | Some n \<Rightarrow> Some (VStr n))"
    "lookup ?d ''complete''
       = (case tu_complete todo of None \<Rightarrow> lookup d ''complete'' | Some b \<Rightarrow> Some (VBool b))"
    "lookup ?d ''created_at'' = lookup d ''created_at''"
    by (simp_all add: lookup_set_fields update_data_map_of split: option.splits)
  show "\<exists>d' k. update_todo ObjectId now id' todo c
              = (Inr (200,
                   [(''id'', VStr oid),
                    (''name'', case lookup d' ''name'' of None \<Rightarrow> VStr [] | Some v \<Rightarrow> v),
                    (''description'', case lookup d' ''description'' of None \<Rightarrow> VStr [] | Some v \<Rightarrow> v),
                    (''complete'', case lookup d' ''complete'' of None \<Rightarrow> VBool False | Some v \<Rightarrow> v),
                    (''created_at'', case lookup d' ''created_at'' of None \<Rightarrow> VNone | Some v \<Rightarrow> v),
                    (''updated_at'', VDate now)]),
                 c[k := d'])
            \<and> k < length c \<and> c ! k = d
            \<and> find_one (c[k := d']) [(''_id'', VOid oid)] = Some d'
            \<and> doc_id d' = doc_id d
            \<and> lookup d' ''name'' = (case tu_name todo of None \<Rightarrow> lookup d ''name'' | Some n \<Rightarrow> Some (VStr n))
            \<and> lookup d' ''description''
                = (case tu_description todo of None \<Rightarrow> lookup d ''description'' | Some n \<Rightarrow> Some (VStr n))
            \<and> lookup d' ''complete''
                = (case tu_complete todo of None \<Rightarrow> lookup d ''complete'' | Some b \<Rightarrow> Some (VBool b))
            \<and> lookup d' ''created_at'' = lookup d ''created_at''
            \<and> lookup d' ''updated_at'' = Some (VDate now)"
    apply (intro exI [of _ ?d] exI [of _ k] conjI)
             apply (simp only: r body)
            apply (rule k(1))
           apply (rule k(2))
          apply (rule g)
         apply simp
        apply (rule l(1))
       apply (rule l(2))
      apply (rule l(3))
     apply (rule l(4))
    apply (rule u)
    done
next
  assume "ObjectId id' = Some oid \<and> find_one c [(''_id'', VOid oid)] = Some d
        \<and> tu_name todo = None \<and> tu_description todo = None \<and> tu_complete todo = None"
  then show "update_todo ObjectId now id' todo c = (Inl (HTTPException 400 ''No valid fields to update''), c)"
    using update_todo_found [of ObjectId id' oid c d now todo] by simp
qed

theorem partial_update_frame_witness:
  "first_by_id 1 [book1, book2] = Inr (Some book1)
   \<and> row_ok (set_all book1 (model_dump_exclude_unset (only_rating 95)))
   \<and> update_book 1 (only_rating 95) [book1, book2]
       = (Inr (200, book1\<lparr>rating := Some 95\<rparr>), [book1\<lparr>rating := Some 95\<rparr>, book2])
   \<and> title (book1\<lparr>rating := Some 95\<rparr>) = Some ''Dune''
   \<and> find_book_by_id (book_id mem_book1) [mem_book1] = Some (0, mem_book1)
   \<and> update_book_mem (book_id mem_book1) (only_rating 95) [mem_book1]
       = (Inr (200, mem_book1\<lparr>rating := Some 95\<rparr>), [mem_book1\<lparr>rating := Some 95\<rparr>])
   \<and> sample_ObjectId oid1 = Some oid1
   \<and> find_one [todo1, todo2] [(''_id'', VOid oid1)] = Some todo1
   \<and> fst (update_todo sample_ObjectId 20 oid1
          \<lparr>tu_name = None, tu_description = None, tu_complete = Some True, tu_fields_set = {''complete''}\<rparr>
          [todo1, todo2])
       = Inr (200, [(''id'', VStr oid1), (''name'', VStr ''milk''), (''description'', VStr ''buy milk''),
            (''complete'', VBool True), (''created_at'', VDate 10), (''updated_at'', VDate 20)])"
proof -
  let ?p = "\<lparr>tu_name = None, tu_description = None, tu_complete = Some True, tu_fields_set = {''complete''}\<rparr>"
  have b: "first_by_id 1 [book1, book2] = Inr (Some book1)"
    by (simp add: first_by_id_def int64_def book1_def)
  have ok: "row_ok (set_all book1 (model_dump_exclude_unset (only_rating 95)))"
    by (simp add: row_ok_def set_all_fields only_rating_def book1_def)
  have m: "find_book_by_id (book_id mem_book1) [mem_book1] = Some (0, mem_book1)"
    by (simp add: find_book_by_id_def enumerate_eq_zip)
  have h: "sample_ObjectId oid1 = Some oid1" by simp
  have f: "find_one [todo1, todo2] [(''_id'', VOid oid1)] = Some todo1"
    by (simp add: find_one_def)
  have l: "lookup todo1 ''name'' = Some (VStr ''milk'')"
    "lookup todo1 ''description'' = Some (VStr ''buy milk'')"
    "lookup todo1 ''created_at'' = Some (VDate 10)"
    by (simp_all add: lookup_def todo1_def)
  have n: "\<not> (tu_name ?p = None \<and> tu_description ?p = None \<and> tu_complete ?p = None)"
    by simp
  note inst = partial_update_frame [where i = 1 and db = "[book1, book2]" and book = book1
      and p = "only_rating 95" and u = "book_id mem_book1" and BOOKS = "[mem_book1]" and index = 0
      and mbook = mem_book1 and ObjectId = sample_ObjectId and id' = oid1 and oid = oid1
      and c = "[todo1, todo2]" and d = todo1 and todo = ?p and now = 20]
  have sql: "update_book 1 (only_rating 95) [book1, book2]
       = (Inr (200, book1\<lparr>rating := Some 95\<rparr>), [book1\<lparr>rating := Some 95\<rparr>, book2])"
    by (subst update_book_found [OF b])
      (simp add: set_all_def model_dump_exclude_unset_def only_rating_def
        book1_def book2_def row_ok_def Let_def)
  have mem: "update_book_mem (book_id mem_book1) (only_rating 95) [mem_book1]
       = (Inr (200, mem_book1\<lparr>rating := Some 95\<rparr>), [mem_book1\<lparr>rating := Some 95\<rparr>])"
    by (simp add: update_book_mem_def m set_all_def model_dump_exclude_unset_def only_rating_def Let_def)
  have hyp: "sample_ObjectId oid1 = Some oid1
      \<and> find_one [todo1, todo2] [(''_id'', VOid oid1)] = Some todo1
      \<and> \<not> (tu_name ?p = None \<and> tu_description ?p = None \<and> tu_complete ?p = None)"
    using h f n by simp
  from inst [THEN conjunct2, THEN conjunct2, THEN conjunct1, THEN mp, OF hyp] obtain d' k where
    "update_todo sample_ObjectId 20 oid1 ?p [todo1, todo2]
       = (Inr (200,
            [(''id'', VStr oid1),
             (''name'', case lookup d' ''name'' of None \<Rightarrow> VStr [] | Some v \<Rightarrow> v),
             (''description'', case lookup d' ''description'' of None \<Rightarrow> VStr [] | Some v \<Rightarrow> v),
             (''complete'', case lookup d' ''complete'' of None \<Rightarrow> VBool False | Some v \<Rightarrow> v),
             (''created_at'', case lookup d' ''created_at'' of None \<Rightarrow> VNone | Some v \<Rightarrow> v),
             (''updated_at'', VDate 20)]),
          [todo1, todo2][k := d'])"
    "lookup d' ''name'' = (case tu_name ?p of None \<Rightarrow> lookup todo1 ''name'' | Some n \<Rightarrow> Some (VStr n))"
    "lookup d' ''description''
       = (case tu_description ?p of None \<Rightarrow> lookup todo1 ''description'' | Some n \<Rightarrow> Some (VStr n))"
    "lookup d' ''complete''
       = (case tu_complete ?p of None \<Rightarrow> lookup todo1 ''complete'' | Some b \<Rightarrow> Some (VBool b))"
    "lookup d' ''created_at'' = lookup todo1 ''created_at''"
    by blast
  with l have "fst (update_todo sample_ObjectId 20 oid1 ?p [todo1, todo2])
       = Inr (200, [(''id'', VStr oid1), (''name'', VStr ''milk''), (''description'', VStr ''buy milk''),
            (''complete'', VBool True), (''created_at'', VDate 10), (''updated_at'', VDate 20)])"
    by simp
  with b ok m h f sql mem show ?thesis
    by (simp add: book1_def)
qed

section \<open>Statistics\<close>

text \<open>
  C2. For every collection the statistics endpoint answers 200 and leaves the collection
  unchanged; \<^verbatim>\<open>total\<close> is the number of todos, \<^verbatim>\<open>completed\<close> the number of todos
  whose \<^verbatim>\<open>complete\<close> is true, \<^verbatim>\<open>pending\<close> their difference, which is the number of
  the other todos, so that completed and pending add up to total;
  \<^verbatim>\<open>completion_rate\<close> is the integer 0 when total is 0 and otherwise the float
  \<^verbatim>\<open>round(completed / total * 100, 2)\<close>.
\<close>

theorem todo_stats:
  "(let total = int (length c);
        completed = int (length (filter (\<lambda>d. lookup d ''complete'' = Some (VBool True)) c));
        pending = int (length (filter (\<lambda>d. lookup d ''complete'' \<noteq> Some (VBool True)) c))
    in get_todo_stats truediv mul round' c =
         (Inr (200,
            [(''total'', PyInt total),
             (''completed'', PyInt completed),
             (''pending'', PyInt pending),
             (''completion_rate'',
                if total = 0 then PyInt 0
                else PyFloat (round' (mul (truediv completed total) 100) 2))]),
          c)
       \<and> pending = total - completed
       \<and> completed + pending = total)"
proof -
  have m: "matches [(''complete'', VBool True)] = (\<lambda>d. lookup d ''complete'' = Some (VBool True))"
    by (simp add: fun_eq_iff lookup_def)
  have s: "length (filter (\<lambda>d. lookup d ''complete'' = Some (VBool True)) c)
      + length (filter (\<lambda>d. lookup d ''complete'' \<noteq> Some (VBool True)) c) = length c"
    by (rule sum_length_filter_compl)
  then have p: "int (length (filter (\<lambda>d. lookup d ''complete'' \<noteq> Some (VBool True)) c))
      = int (length c) - int (length (filter (\<lambda>d. lookup d ''complete'' = Some (VBool True)) c))"
    by linarith
  show ?thesis
    unfolding Let_def get_todo_stats_def count_documents_def m
    using p by simp
qed

theorem todo_stats_witness:
  "get_todo_stats sample_truediv sample_mul sample_round [] =
     (Inr (200, [(''total'', PyInt 0), (''completed'', PyInt 0), (''pending'', PyInt 0),
        (''completion_rate'', PyInt 0)]), [])
   \<and> get_todo_stats sample_truediv sample_mul sample_round [todo1, todo2] =
     (Inr (200, [(''total'', PyInt 2), (''completed'', PyInt 1), (''pending'', PyInt 1),
        (''completion_rate'', PyFloat 50)]), [todo1, todo2])"
proof -
  have r: "sample_round (sample_mul (sample_truediv 1 2) 100) 2 = 50"
    by (simp add: sample_round_def sample_mul_def sample_truediv_def)
  have l: "lookup todo1 ''complete'' = Some (VBool False)" "lookup todo2 ''complete'' = Some (VBool True)"
    by (simp_all add: lookup_def todo1_def todo2_def)
  from todo_stats [of "[]" sample_truediv sample_mul sample_round]
    todo_stats [of "[todo1, todo2]" sample_truediv sample_mul sample_round]
  show ?thesis
    using r l by (simp add: Let_def)
qed

section \<open>Bulk delete\<close>

lemma str_nat_digit: "n < 10 \<Longrightarrow> str_nat n = [digit n]"
  by (simp add: str_nat.simps)

lemma digit_values:
  "digit 0 = CHR ''0''" "digit 1 = CHR ''1''" "digit 2 = CHR ''2''"
  by (simp_all add: digit_def char_of_eq_iff)

lemma delete_many_complete:
  "delete_many c [(''complete'', VBool True)] =
     (length (filter (\<lambda>d. lookup d ''complete'' = Some (VBool True)) c),
      filter (\<lambda>d. lookup d ''complete'' \<noteq> Some (VBool True)) c)"
proof -
  have "matches [(''complete'', VBool True)] = (\<lambda>d. lookup d ''complete'' = Some (VBool True))"
    by (simp add: fun_eq_iff lookup_def)
  then show ?thesis by (simp add: delete_many_def)
qed

text \<open>
  C6, as stated, at a collection of one open and one completed todo: the body of the
  answer is the dictionary with the single key \<^verbatim>\<open>message\<close>; it has no
  \<^verbatim>\<open>deletedCount\<close>.
\<close>

theorem bulk_delete_body_counterexample:
  "delete_completed_todos [todo1, todo2]
     = (Inr (200, [(''message'', VStr ''Deleted 1 completed todos'')]), [todo1])
   \<and> map_of [(''message'', VStr ''Deleted 1 completed todos'')] ''deletedCount'' = None
   \<and> map fst [(''message'', VStr ''Deleted 1 completed todos'')] \<noteq> [''deletedCount'']"
  by (simp add: delete_completed_todos_def delete_many_complete lookup_def todo1_def todo2_def
      str_nat_digit digit_def char_of_eq_iff)

text \<open>
  C6, amended. Deleting the completed todos always answers 200; the body is the
  dictionary whose only entry, \<^verbatim>\<open>message\<close>, is the text "Deleted n completed todos"
  with the decimal number \<open>n\<close> of the todos removed; the todos kept are those whose
  \<^verbatim>\<open>complete\<close> is not true, in their order. When no todo is completed, \<open>n\<close> is 0 and
  the collection is unchanged. Deleting all books always answers 200 with the message
  "Successfully deleted n book(s)", \<open>n\<close> being the number of rows, and empties the table.
\<close>

theorem bulk_delete_message:
  "(\<exists>n c'. delete_completed_todos c
        = (Inr (200, [(''message'', VStr (''Deleted '' @ str_nat n @ '' completed todos''))]), c')
      \<and> c' = filter (\<lambda>d. lookup d ''complete'' \<noteq> Some (VBool True)) c
      \<and> n = length (filter (\<lambda>d. lookup d ''complete'' = Some (VBool True)) c)
      \<and> n + length c' = length c
      \<and> (n = 0 \<longrightarrow> c' = c \<and> str_nat n = ''0''))
   \<and> delete_all_books db
        = (Inr (200, [(''message'', VStr (''Successfully deleted '' @ str_nat (length db) @ '' book(s)''))]), [])
   \<and> (db = [] \<longrightarrow> delete_all_books db
        = (Inr (200, [(''message'', VStr ''Successfully deleted 0 book(s)'')]), db))"
proof (intro conjI impI)
  let ?P = "\<lambda>d. lookup d ''complete'' = Some (VBool True)"
  have s: "length (filter ?P c) + length (filter (\<lambda>d. \<not> ?P d) c) = length c"
    by (rule sum_length_filter_compl)
  have z: "filter (\<lambda>d. \<not> ?P d) c = c" if "length (filter ?P c) = 0"
    using that by (auto simp: filter_id_conv filter_empty_conv)
  show "\<exists>n c'. delete_completed_todos c
        = (Inr (200, [(''message'', VStr (''Deleted '' @ str_nat n @ '' completed todos''))]), c')
      \<and> c' = filter (\<lambda>d. lookup d ''complete'' \<noteq> Some (VBool True)) c
      \<and> n = length (filter (\<lambda>d. lookup d ''complete'' = Some (VBool True)) c)
      \<and> n + length c' = length c
      \<and> (n = 0 \<longrightarrow> c' = c \<and> str_nat n = ''0'')"
    apply (intro exI [of _ "length (filter ?P c)"] exI [of _ "filter (\<lambda>d. \<not> ?P d) c"])
    using s z by (simp add: delete_completed_todos_def delete_many_complete str_nat_digit digit_values)
  show "delete_all_books db
        = (Inr (200, [(''message'', VStr (''Successfully deleted '' @ str_nat (length db) @ '' book(s)''))]), [])"
    by (simp add: delete_all_books_def)
  show "delete_all_books db = (Inr (200, [(''message'', VStr ''Successfully deleted 0 book(s)'')]), db)"
    if "db = []"
    using that by (simp add: delete_all_books_def str_nat_digit digit_values)
qed

theorem bulk_delete_message_witness:
  "delete_completed_todos [todo1]
     = (Inr (200, [(''message'', VStr ''Deleted 0 completed todos'')]), [todo1])
   \<and> delete_all_books []
     = (Inr (200, [(''message'', VStr ''Successfully deleted 0 book(s)'')]), [])
   \<and> delete_all_books [book1, book2]
     = (Inr (200, [(''message'', VStr ''Successfully deleted 2 book(s)'')]), [])"
proof -
  have l: "lookup todo1 ''complete'' \<noteq> Some (VBool True)"
    by (simp add: lookup_def todo1_def)
  from bulk_delete_message [of "[todo1]" "[]"] bulk_delete_message [of "[todo1]" "[book1, book2]"]
  show ?thesis
    using l by (auto simp: str_nat_digit digit_def char_of_eq_iff)
qed

section \<open>Single delete\<close>

lemma delete_one_id:
  "delete_one c [(''_id'', VOid oid)] =
     (if oid \<in> set (map doc_id c) then 1 else 0, snd (delete_one c [(''_id'', VOid oid)]))"
  using fst_delete_one_id [of c oid] by (cases "delete_one c [(''_id'', VOid oid)]") simp

lemma pop_distinct:
  "distinct (map f xs) \<Longrightarrow> i < length xs \<Longrightarrow> f (xs ! i) = u \<Longrightarrow>
   take i xs @ drop (Suc i) xs = filter (\<lambda>x. f x \<noteq> u) xs"
proof (induction xs arbitrary: i)
  case Nil
  then show ?case by simp
next
  case (Cons x xs)
  show ?case
  proof (cases i)
    case 0
    with Cons.prems have "f x = u" "u \<notin> f ` set xs" by force+
    then have "filter (\<lambda>x. f x \<noteq> u) xs = xs"
      by (auto simp: filter_id_conv image_iff)
    with 0 \<open>f x = u\<close> show ?thesis by simp
  next
    case (Suc j)
    with Cons.prems have j: "j < length xs" "f (xs ! j) = u" "distinct (map f xs)" by auto
    then have "f x \<noteq> u" using Cons.prems(1) by (auto simp: image_iff)
    with Cons.IH [OF j(3) j(1) j(2)] Suc show ?thesis by simp
  qed
qed

lemma delete_todo_cases:
  "delete_todo ObjectId id' c =
     (case ObjectId id' of
        None \<Rightarrow> (Inl (HTTPException 400 (''Invalid ID format: '' @ id')), c)
      | Some oid \<Rightarrow>
          if oid \<in> set (map doc_id c)
          then (Inr (204, ()), snd (delete_one c [(''_id'', VOid oid)]))
          else (Inl (not_found id'), c))"
proof (cases "ObjectId id'")
  case None
  then show ?thesis by (simp add: delete_todo_def validate_object_id_def)
next
  case (Some oid)
  obtain n c' where r: "delete_one c [(''_id'', VOid oid)] = (n, c')"
    by (cases "delete_one c [(''_id'', VOid oid)]")
  have n: "n = (if oid \<in> set (map doc_id c) then 1 else 0)"
    using fst_delete_one_id [of c oid] r by simp
  have "c' = c" if "oid \<notin> set (map doc_id c)"
    using snd_delete_one_absent [OF that] r by simp
  with Some r n show ?thesis
    by (simp add: delete_todo_def validate_object_id_def)
qed

lemma delete_book_mem_cases:
  assumes "distinct (map book_id BOOKS)"
  shows "delete_book_mem u BOOKS =
     (case List.find (\<lambda>b. book_id b = u) BOOKS of
        None \<Rightarrow> (Inl (book_not_found u), BOOKS)
      | Some b \<Rightarrow> (Inr (200, (''Book deleted successfully'', u, title b)),
                   filter (\<lambda>b. book_id b \<noteq> u) BOOKS))"
proof (cases "find_book_by_id u BOOKS")
  case None
  then have "u \<notin> set (map book_id BOOKS)"
    by (simp add: find_book_by_id_None)
  then have "List.find (\<lambda>b. book_id b = u) BOOKS = None"
    by (auto simp: find_None_iff)
  with None show ?thesis by (simp add: delete_book_mem_def)
next
  case (Some r)
  obtain index book where r: "r = (index, book)" by (cases r)
  from find_book_by_id_Some [OF Some [unfolded r]] have
    ix: "index < length BOOKS" "BOOKS ! index = book" "book_id book = u"
      "\<forall>j<index. book_id (BOOKS ! j) \<noteq> u"
    by simp_all
  then have "List.find (\<lambda>b. book_id b = u) BOOKS = Some book"
    unfolding find_Some_iff by (intro exI [of _ index]) simp
  moreover have "take index BOOKS @ drop (Suc index) BOOKS = filter (\<lambda>b. book_id b \<noteq> u) BOOKS"
    using assms ix by (intro pop_distinct) simp_all
  ultimately show ?thesis
    using Some r ix by (simp add: delete_book_mem_def)
qed

text \<open>
  C7. In a collection whose identifiers are distinct, deleting a todo succeeds (204,
  no body) exactly when the string is a well-formed id that some todo has; the new
  collection is then the old one without the todos of that id, every other todo kept in
  place, and deleting the same id again answers with the 404 error and changes nothing.
  A delete that fails leaves the collection as it was. The same holds for the in-memory
  list of books with distinct keys, where the success answer is 200 with the key and
  title of the book removed.
\<close>

theorem single_delete:
  assumes "distinct (map doc_id c)" and "distinct (map book_id BOOKS)"
  shows "((\<exists>r. fst (delete_todo ObjectId id' c) = Inr r)
          \<longleftrightarrow> (\<exists>oid. ObjectId id' = Some oid \<and> oid \<in> set (map doc_id c)))
    \<and> (\<forall>oid. ObjectId id' = Some oid \<and> oid \<in> set (map doc_id c) \<longrightarrow>
          delete_todo ObjectId id' c = (Inr (204, ()), filter (\<lambda>d. doc_id d \<noteq> oid) c)
        \<and> delete_todo ObjectId id' (filter (\<lambda>d. doc_id d \<noteq> oid) c)
            = (Inl (not_found id'), filter (\<lambda>d. doc_id d \<noteq> oid) c))
    \<and> (\<forall>e. fst (delete_todo ObjectId id' c) = Inl e \<longrightarrow> snd (delete_todo ObjectId id' c) = c)
    \<and> ((\<exists>r. fst (delete_book_mem u BOOKS) = Inr r) \<longleftrightarrow> u \<in> set (map book_id BOOKS))
    \<and> (u \<in> set (map book_id BOOKS) \<longrightarrow>
          (\<exists>t. delete_book_mem u BOOKS
                 = (Inr (200, (''Book deleted successfully'', u, t)), filter (\<lambda>b. book_id b \<noteq> u) BOOKS))
        \<and> delete_book_mem u (filter (\<lambda>b. book_id b \<noteq> u) BOOKS)
            = (Inl (book_not_found u), filter (\<lambda>b. book_id b \<noteq> u) BOOKS))
    \<and> (u \<notin> set (map book_id BOOKS) \<longrightarrow> delete_book_mem u BOOKS = (Inl (book_not_found u), BOOKS))"
proof (intro conjI allI impI)
  show "(\<exists>r. fst (delete_todo ObjectId id' c) = Inr r)
          \<longleftrightarrow> (\<exists>oid. ObjectId id' = Some oid \<and> oid \<in> set (map doc_id c))"
    by (auto simp: delete_todo_cases split: option.splits)
  show "snd (delete_todo ObjectId id' c) = c" if "fst (delete_todo ObjectId id' c) = Inl e" for e
    using that by (auto simp: delete_todo_cases split: option.splits if_splits)
  have fb: "(List.find (\<lambda>b. book_id b = u) BOOKS = None) = (u \<notin> set (map book_id BOOKS))"
    by (auto simp: find_None_iff)
  show "(\<exists>r. fst (delete_book_mem u BOOKS) = Inr r) \<longleftrightarrow> u \<in> set (map book_id BOOKS)"
    using fb by (auto simp: delete_book_mem_cases [OF assms(2)] split: option.splits)
  show "delete_book_mem u BOOKS = (Inl (book_not_found u), BOOKS)" if "u \<notin> set (map book_id BOOKS)"
    using that fb by (simp add: delete_book_mem_cases [OF assms(2)])
next
  fix oid
  assume a: "ObjectId id' = Some oid \<and> oid \<in> set (map doc_id c)"
  let ?c = "filter (\<lambda>d. doc_id d \<noteq> oid) c"
  show "delete_todo ObjectId id' c = (Inr (204, ()), ?c)"
    using a assms(1) by (simp add: delete_todo_cases snd_delete_one_distinct)
  have "oid \<notin> set (map doc_id ?c)" by auto
  then show "delete_todo ObjectId id' ?c = (Inl (not_found id'), ?c)"
    using a by (simp add: delete_todo_cases)
next
  assume a: "u \<in> set (map book_id BOOKS)"
  let ?B = "filter (\<lambda>b. book_id b \<noteq> u) BOOKS"
  from a obtain b where "List.find (\<lambda>b. book_id b = u) BOOKS = Some b"
    by (cases "List.find (\<lambda>b. book_id b = u) BOOKS") (auto simp: find_None_iff)
  then show "\<exists>t. delete_book_mem u BOOKS
                 = (Inr (200, (''Book deleted successfully'', u, t)), ?B)"
    by (simp add: delete_book_mem_cases [OF assms(2)])
  have d: "distinct (map book_id ?B)"
    using assms(2) by (simp add: distinct_map_filter)
  have "List.find (\<lambda>b. book_id b = u) ?B = None"
    by (auto simp: find_None_iff)
  then show "delete_book_mem u ?B = (Inl (book_not_found u), ?B)"
    by (simp add: delete_book_mem_cases [OF d])
qed

theorem single_delete_witness:
  "distinct (map doc_id [todo1, todo2]) \<and> distinct (map book_id [mem_book1])
   \<and> sample_ObjectId oid1 = Some oid1 \<and> oid1 \<in> set (map doc_id [todo1, todo2])
   \<and> delete_todo sample_ObjectId oid1 [todo1, todo2] = (Inr (204, ()), [todo2])
   \<and> delete_todo sample_ObjectId oid1 [todo2] = (Inl (not_found oid1), [todo2])
   \<and> book_id mem_book1 \<in> set (map book_id [mem_book1])
   \<and> delete_book_mem (book_id mem_book1) [mem_book1]
       = (Inr (200, (''Book deleted successfully'', book_id mem_book1, Some ''Dune'')), [])
   \<and> delete_book_mem (book_id mem_book1) [] = (Inl (book_not_found (book_id mem_book1)), [])"
proof -
  have d: "distinct (map doc_id [todo1, todo2])" "distinct (map book_id [mem_book1])"
    by simp_all
  have h: "sample_ObjectId oid1 = Some oid1" by simp
  have t: "title mem_book1 = Some ''Dune''" by (simp add: mem_book1_def)
  have e: "delete_book_mem (book_id mem_book1) [mem_book1]
       = (Inr (200, (''Book deleted successfully'', book_id mem_book1, Some ''Dune'')), [])"
    by (simp add: delete_book_mem_cases t)
  from single_delete [OF d, where ObjectId = sample_ObjectId and id' = oid1 and u = "book_id mem_book1"]
  show ?thesis
    using h e by simp
qed

section \<open>Timestamps\<close>

lemma find_append_new:
  "List.find P xs = None \<Longrightarrow> P y \<Longrightarrow> List.find P (xs @ [y]) = Some y"
  by (induction xs) (auto split: if_splits)

lemma date_of_Some: "date_of v = Some t \<longleftrightarrow> v = Some (VDate t)"
  by (cases v rule: date_of.cases) auto

lemma stamped_iff:
  "stamped T c \<longleftrightarrow>
     (\<forall>d\<in>set c. \<exists>a b. lookup d ''created_at'' = Some (VDate a)
        \<and> lookup d ''updated_at'' = Some (VDate b) \<and> a \<le> b \<and> a \<le> T)"
  unfolding stamped_def list_all_iff
  by (intro ball_cong refl) (auto simp: date_of_Some split: option.splits)

lemma stamped_mono: "stamped T c \<Longrightarrow> T \<le> T' \<Longrightarrow> stamped T' c"
  unfolding stamped_iff by (meson order_trans)

lemma set_update_one:
  "d' \<in> set (update_one c q upd) \<Longrightarrow> d' \<in> set c \<or> (\<exists>d\<in>set c. d' = set_fields d upd)"
  by (induction c) (auto split: if_splits)

lemma map_lookup_update_one:
  "k \<noteq> ''_id'' \<Longrightarrow> map_of (rev upd) k = None \<Longrightarrow>
   map (\<lambda>d. lookup d k) (update_one c q upd) = map (\<lambda>d. lookup d k) c"
  by (induction c) (auto simp: lookup_set_fields)

lemma stamped_update_one:
  assumes "stamped T c" and "T \<le> now"
    and "map_of (rev upd) ''created_at'' = None"
    and "map_of (rev upd) ''updated_at'' = Some (VDate now)"
  shows "stamped now (update_one c q upd)"
  unfolding stamped_iff
proof
  fix d' assume "d' \<in> set (update_one c q upd)"
  then consider "d' \<in> set c" | d where "d \<in> set c" "d' = set_fields d upd"
    using set_update_one by blast
  then show "\<exists>a b. lookup d' ''created_at'' = Some (VDate a)
        \<and> lookup d' ''updated_at'' = Some (VDate b) \<and> a \<le> b \<and> a \<le> now"
  proof cases
    case 1
    with assms(1,2) show ?thesis
      unfolding stamped_iff by (meson order_trans)
  next
    case 2
    from 2(1) assms(1) obtain a b where
      "lookup d ''created_at'' = Some (VDate a)" "a \<le> T"
      unfolding stamped_iff by blast
    with 2(2) assms(2-4) show ?thesis
      by (simp add: lookup_set_fields)
  qed
qed

lemma toggle_todo_store:
  "snd (toggle_todo ObjectId now id' c) = c \<or>
   (\<exists>oid b. snd (toggle_todo ObjectId now id' c) =
        update_one c [(''_id'', VOid oid)] [(''complete'', VBool b), (''updated_at'', VDate now)])"
  by (auto simp: toggle_todo_def validate_object_id_def Let_def split: sum.splits option.splits)

lemma create_todo_store:
  "create_todo new_id t1 t2 todo c = (Inl DuplicateKeyError, c) \<or>
   (\<exists>d. create_todo new_id t1 t2 todo c = (Inr (201, individual_serial d), c @ [d])
      \<and> doc_id d = new_id
      \<and> lookup d ''created_at'' = Some (VDate t1)
      \<and> lookup d ''updated_at'' = Some (VDate t2))"
proof (cases "new_id \<in> set (map doc_id c)")
  case True
  then show ?thesis by (simp add: create_todo_def insert_one_def)
next
  case False
  let ?d = "\<lparr>doc_id = new_id, doc_fields = AList.update ''updated_at'' (VDate t2)
      (AList.update ''created_at'' (VDate t1) (model_dump_create todo))\<rparr>"
  from False have "List.find (matches [(''_id'', VOid new_id)]) c = None"
    by (auto simp: find_None_iff)
  then have "find_one (c @ [?d]) [(''_id'', VOid new_id)] = Some ?d"
    unfolding find_one_def by (rule find_append_new) simp
  with False have "create_todo new_id t1 t2 todo c = (Inr (201, individual_serial ?d), c @ [?d])"
    by (simp add: create_todo_def insert_one_def Let_def)
  moreover have "lookup ?d ''created_at'' = Some (VDate t1)" "lookup ?d ''updated_at'' = Some (VDate t2)"
    by (simp_all add: lookup_def model_dump_create_def)
  ultimately show ?thesis by (intro disjI2 exI [of _ ?d]) simp
qed

lemma stamped_step:
  assumes "stamped T c" and "sorted (T # readings x)"
  shows "stamped (last (T # readings x)) (step ObjectId x c)"
proof (cases x)
  case (Create new_id t1 t2 todo)
  with assms(2) have le: "T \<le> t1" "t1 \<le> t2" by auto
  from create_todo_store [of new_id t1 t2 todo c] show ?thesis
  proof
    assume "create_todo new_id t1 t2 todo c = (Inl DuplicateKeyError, c)"
    with Create assms(1) le show ?thesis
      by (auto intro: stamped_mono)
  next
    assume "\<exists>d. create_todo new_id t1 t2 todo c = (Inr (201, individual_serial d), c @ [d])
      \<and> doc_id d = new_id
      \<and> lookup d ''created_at'' = Some (VDate t1)
      \<and> lookup d ''updated_at'' = Some (VDate t2)"
    then obtain d where d: "create_todo new_id t1 t2 todo c = (Inr (201, individual_serial d), c @ [d])"
      "lookup d ''created_at'' = Some (VDate t1)" "lookup d ''updated_at'' = Some (VDate t2)"
      by blast
    have "stamped t2 c"
      using assms(1) le by (auto intro: stamped_mono)
    with d le Create show ?thesis
      by (simp add: stamped_iff)
  qed
next
  case (Update now id' todo)
  with assms(2) have le: "T \<le> now" by simp
  let ?upd = "AList.update ''updated_at'' (VDate now) (filter (\<lambda>(k, v). v \<noteq> VNone) (model_dump todo))"
  have "stamped now (update_one c q ?upd)" for q
    using assms(1) le by (rule stamped_update_one) (simp_all add: update_data_map_of)
  with update_todo_store [of ObjectId now id' todo c] assms(1) le Update show ?thesis
    by (auto intro: stamped_mono)
next
  case (Toggle now id')
  with assms(2) have le: "T \<le> now" by simp
  have "stamped now (update_one c q [(''complete'', VBool b), (''updated_at'', VDate now)])" for q b
    using assms(1) le by (rule stamped_update_one) simp_all
  with toggle_todo_store [of ObjectId now id' c] assms(1) le Toggle show ?thesis
    by (auto intro: stamped_mono)
qed

lemma stamped_run:
  "stamped T c \<Longrightarrow> sorted (T # concat (map readings ops)) \<Longrightarrow>
   stamped (last (T # concat (map readings ops))) (run ObjectId ops c)"
proof (induction ops arbitrary: T c)
  case Nil
  then show ?case by (simp add: run_def)
next
  case (Cons x ops)
  let ?T = "last (T # readings x)"
  from Cons.prems(2) have s: "sorted (T # readings x)" "sorted (?T # concat (map readings ops))"
    by (cases x; auto simp: sorted_append)+
  have "stamped ?T (step ObjectId x c)"
    using Cons.prems(1) s(1) by (rule stamped_step)
  from Cons.IH [OF this s(2)] have
    "stamped (last (?T # concat (map readings ops))) (run ObjectId ops (step ObjectId x c))" .
  moreover have "last (?T # concat (map readings ops)) = last (T # concat (map readings (x # ops)))"
    by (cases x) auto
  ultimately show ?case by (simp add: run_def)
qed

text \<open>
  C8, as stated, at a create for which the clock reads 10 and then 11, followed by a
  toggle for which it reads 5: the todo is stored with \<^verbatim>\<open>created_at\<close> 10 and
  \<^verbatim>\<open>updated_at\<close> 5.
\<close>

theorem timestamps_backwards_counterexample:
  "run sample_ObjectId
     [Create oid1 10 11 \<lparr>tc_name = ''milk'', tc_description = ''buy milk'', tc_complete = False\<rparr>,
      Toggle 5 oid1] []
   = [\<lparr>doc_id = oid1, doc_fields = [(''name'', VStr ''milk''), (''description'', VStr ''buy milk''),
        (''complete'', VBool True), (''created_at'', VDate 10), (''updated_at'', VDate 5)]\<rparr>]
   \<and> \<not> (10 :: nat) \<le> 5"
  by (simp add: run_def create_todo_def insert_one_def model_dump_create_def find_one_def
      toggle_todo_def validate_object_id_def get_def lookup_def set_fields_def Let_def)

text \<open>
  C8, amended. Let the collection hold todos that all carry both timestamps, with
  \<^verbatim>\<open>created_at\<close> not after \<^verbatim>\<open>updated_at\<close> and not after the time \<open>T\<close> (the empty
  collection is one), and let the clock never run backwards: the readings that the
  handlers take, in the order of the requests, never decrease from \<open>T\<close> on. Then after
  any sequence of create, update and toggle requests, whether they succeed or fail,
  every todo carries both timestamps with \<^verbatim>\<open>created_at\<close> not after
  \<^verbatim>\<open>updated_at\<close>. A create either fails on a duplicate key and changes nothing, or
  appends a todo with the two readings as its timestamps; update and toggle change no
  identifier and no \<^verbatim>\<open>created_at\<close>.
\<close>

theorem timestamps_ordered:
  assumes "stamped T c0" and "sorted (T # concat (map readings ops))"
  shows "(\<forall>d\<in>set (run ObjectId ops c0). \<exists>a b. lookup d ''created_at'' = Some (VDate a)
            \<and> lookup d ''updated_at'' = Some (VDate b) \<and> a \<le> b)
    \<and> (create_todo new_id t1 t2 new c = (Inl DuplicateKeyError, c)
        \<or> (\<exists>d. create_todo new_id t1 t2 new c = (Inr (201, individual_serial d), c @ [d])
              \<and> doc_id d = new_id
              \<and> lookup d ''created_at'' = Some (VDate t1)
              \<and> lookup d ''updated_at'' = Some (VDate t2)))
    \<and> map doc_id (snd (update_todo ObjectId now id' todo c)) = map doc_id c
    \<and> map (\<lambda>d. lookup d ''created_at'') (snd (update_todo ObjectId now id' todo c))
        = map (\<lambda>d. lookup d ''created_at'') c
    \<and> map doc_id (snd (toggle_todo ObjectId now id' c)) = map doc_id c
    \<and> map (\<lambda>d. lookup d ''created_at'') (snd (toggle_todo ObjectId now id' c))
        = map (\<lambda>d. lookup d ''created_at'') c"
proof (intro conjI)
  from stamped_run [OF assms, of ObjectId]
  show "\<forall>d\<in>set (run ObjectId ops c0). \<exists>a b. lookup d ''created_at'' = Some (VDate a)
            \<and> lookup d ''updated_at'' = Some (VDate b) \<and> a \<le> b"
    unfolding stamped_iff by blast
  show "create_todo new_id t1 t2 new c = (Inl DuplicateKeyError, c)
        \<or> (\<exists>d. create_todo new_id t1 t2 new c = (Inr (201, individual_serial d), c @ [d])
              \<and> doc_id d = new_id
              \<and> lookup d ''created_at'' = Some (VDate t1)
              \<and> lookup d ''updated_at'' = Some (VDate t2))"
    by (rule create_todo_store)
  let ?upd = "AList.update ''updated_at'' (VDate now) (filter (\<lambda>(k, v). v \<noteq> VNone) (model_dump todo))"
  have u: "map (\<lambda>d. lookup d ''created_at'') (update_one c q ?upd) = map (\<lambda>d. lookup d ''created_at'') c" for q
    by (rule map_lookup_update_one) (simp_all add: update_data_map_of)
  from update_todo_store [of ObjectId now id' todo c]
  show "map doc_id (snd (update_todo ObjectId now id' todo c)) = map doc_id c"
    by auto
  from update_todo_store [of ObjectId now id' todo c] u
  show "map (\<lambda>d. lookup d ''created_at'') (snd (update_todo ObjectId now id' todo c))
        = map (\<lambda>d. lookup d ''created_at'') c"
    by auto
  have t: "map (\<lambda>d. lookup d ''created_at'')
        (update_one c q [(''complete'', VBool b), (''updated_at'', VDate now)])
      = map (\<lambda>d. lookup d ''created_at'') c" for q b
    by (rule map_lookup_update_one) simp_all
  from toggle_todo_store [of ObjectId now id' c]
  show "map doc_id (snd (toggle_todo ObjectId now id' c)) = map doc_id c"
    by auto
  from toggle_todo_store [of ObjectId now id' c] t
  show "map (\<lambda>d. lookup d ''created_at'') (snd (toggle_todo ObjectId now id' c))
        = map (\<lambda>d. lookup d ''created_at'') c"
    by auto
qed

theorem timestamps_ordered_witness:
  "stamped 0 []
   \<and> sorted (0 # concat (map readings
        [Create oid1 10 11 \<lparr>tc_name = ''milk'', tc_description = ''buy milk'', tc_complete = False\<rparr>,
         Toggle 12 oid1,
         Update 15 oid1 \<lparr>tu_name = Some ''oat milk'', tu_description = None, tu_complete = None,
           tu_fields_set = {''name''}\<rparr>]))
   \<and> run sample_ObjectId
        [Create oid1 10 11 \<lparr>tc_name = ''milk'', tc_description = ''buy milk'', tc_complete = False\<rparr>,
         Toggle 12 oid1,
         Update 15 oid1 \<lparr>tu_name = Some ''oat milk'', tu_description = None, tu_complete = None,
           tu_fields_set = {''name''}\<rparr>] []
      = [\<lparr>doc_id = oid1, doc_fields = [(''name'', VStr ''oat milk''), (''description'', VStr ''buy milk''),
           (''complete'', VBool True), (''created_at'', VDate 10), (''updated_at'', VDate 15)]\<rparr>]
   \<and> (10 :: nat) \<le> 15"
proof -
  let ?ops = "[Create oid1 10 11 \<lparr>tc_name = ''milk'', tc_description = ''buy milk'', tc_complete = False\<rparr>,
         Toggle 12 oid1,
         Update 15 oid1 \<lparr>tu_name = Some ''oat milk'', tu_description = None, tu_complete = None,
           tu_fields_set = {''name''}\<rparr>]"
  have s: "stamped 0 []" by (simp add: stamped_def)
  have r: "sorted (0 # concat (map readings ?ops))" by simp
  have e: "run sample_ObjectId ?ops []
      = [\<lparr>doc_id = oid1, doc_fields = [(''name'', VStr ''oat milk''), (''description'', VStr ''buy milk''),
           (''complete'', VBool True), (''created_at'', VDate 10), (''updated_at'', VDate 15)]\<rparr>]"
    by (simp add: run_def create_todo_def insert_one_def model_dump_create_def find_one_def
        toggle_todo_def update_todo_def validate_object_id_def get_def lookup_def set_fields_def
        model_dump_def opt_val_def Let_def)
  from timestamps_ordered [OF s r, of sample_ObjectId] s r e
  show ?thesis by simp
qed

section \<open>Search\<close>

lemma like_percent [simp]: "like s ''%''"
  by (induction s) auto

lemma like_plain_prefix:
  "CHR ''%'' \<notin> set p \<Longrightarrow> CHR ''_'' \<notin> set p \<Longrightarrow> like s (p @ ''%'') \<longleftrightarrow> prefix p s"
proof (induction p arbitrary: s)
  case Nil
  then show ?case by simp
next
  case (Cons x xs)
  then show ?case by (cases s) auto
qed

lemma like_plain_sublist:
  assumes "CHR ''%'' \<notin> set p" and "CHR ''_'' \<notin> set p"
  shows "like s (''%'' @ p @ ''%'') \<longleftrightarrow> sublist p s"
proof (induction s)
  case Nil
  have "like [] (p @ ''%'') \<longleftrightarrow> prefix p []"
    using assms by (rule like_plain_prefix)
  then show ?case by simp
next
  case (Cons c cs)
  have "like (c # cs) (p @ ''%'') \<longleftrightarrow> prefix p (c # cs)"
    using assms by (rule like_plain_prefix)
  with Cons show ?case
    by (simp add: sublist_Cons_right)
qed

lemma lower_wildcard:
  "lower c = CHR ''%'' \<longleftrightarrow> c = CHR ''%''" "lower c = CHR ''_'' \<longleftrightarrow> c = CHR ''_''"
proof -
  show "lower c = CHR ''%'' \<longleftrightarrow> c = CHR ''%''"
  proof (cases "65 \<le> (of_char c :: nat) \<and> (of_char c :: nat) \<le> 90")
    case True
    then have "take_bit 8 (of_char c + 32 :: nat) = of_char c + 32"
      by (simp add: take_bit_eq_mod)
    with True show ?thesis
      by (auto simp: lower_def Let_def char_of_eq_iff)
  next
    case False
    then show ?thesis by (auto simp: lower_def Let_def)
  qed
  show "lower c = CHR ''_'' \<longleftrightarrow> c = CHR ''_''"
  proof (cases "65 \<le> (of_char c :: nat) \<and> (of_char c :: nat) \<le> 90")
    case True
    then have "take_bit 8 (of_char c + 32 :: nat) = of_char c + 32"
      by (simp add: take_bit_eq_mod)
    with True show ?thesis
      by (auto simp: lower_def Let_def char_of_eq_iff)
  next
    case False
    then show ?thesis by (auto simp: lower_def Let_def)
  qed
qed

lemma plain_lower: "plain t \<Longrightarrow> CHR ''%'' \<notin> set (map lower t) \<and> CHR ''_'' \<notin> set (map lower t)"
proof -
  assume p: "plain t"
  have "x \<noteq> CHR ''%'' \<and> x \<noteq> CHR ''_''" if "x \<in> set t" for x
    using that p unfolding plain_def by auto
  then have "lower x \<noteq> CHR ''%'' \<and> lower x \<noteq> CHR ''_''" if "x \<in> set t" for x
    using that by (simp add: lower_wildcard)
  then show ?thesis by (auto simp: image_iff) metis+
qed

lemma lower_percent [simp]: "lower CHR ''%'' = CHR ''%''"
  by (simp add: lower_wildcard)

lemma ilike_plain:
  "plain t \<Longrightarrow> ilike column (''%'' @ t @ ''%'') \<longleftrightarrow> ci_substring t column"
proof (cases column)
  case None
  then show ?thesis by (simp add: ilike_def ci_substring_def)
next
  case (Some s)
  assume "plain t"
  from plain_lower [OF this] have
    "like (map lower s) (''%'' @ map lower t @ ''%'') \<longleftrightarrow> sublist (map lower t) (map lower s)"
    by (intro like_plain_sublist) simp_all
  with Some show ?thesis
    by (simp add: ilike_def ci_substring_def)
qed

text \<open>
  What the search returns: an \<^verbatim>\<open>OverflowError\<close> when the minimum rating does not fit
  a 64-bit integer, and otherwise the table filtered, in its order, by the conjunction of
  the pattern matches and the comparison of the parameters given. When the title and
  author parameters contain neither \<^verbatim>\<open>%\<close> nor \<^verbatim>\<open>_\<close>, the pattern match is the
  case-insensitive substring match (the ASCII letters folded) of the specification.
\<close>

lemma search_books_selected:
  "search_books title' author' min_rating db =
     (case min_rating of
        None \<Rightarrow> Inr (filter (selected title' author' min_rating) db)
      | Some m \<Rightarrow> if int64 m then Inr (filter (selected title' author' min_rating) db)
                  else Inl OverflowError)"
  by (cases title'; cases author'; cases min_rating)
     (auto simp: search_books_def selected_def Let_def intro: filter_cong)

lemma selected_plain:
  "plain_opt title' \<Longrightarrow> plain_opt author' \<Longrightarrow>
   selected title' author' min_rating = wanted title' author' min_rating"
  by (cases title'; cases author')
     (auto simp: fun_eq_iff selected_def wanted_def plain_opt_def ilike_plain [simplified])

lemma search_books_plain:
  assumes "plain_opt title'" and "plain_opt author'"
    and "case min_rating of None \<Rightarrow> True | Some m \<Rightarrow> int64 m"
  shows "search_books title' author' min_rating db = Inr (filter (wanted title' author' min_rating) db)"
  using assms(3) selected_plain [OF assms(1,2), of min_rating]
  by (cases min_rating) (simp_all add: search_books_selected)

text \<open>
  C9. A book is to be in the result exactly when it satisfies every predicate given, the
  one of the title being a case-insensitive substring match. At the title parameter
  \<^verbatim>\<open>a_c\<close> and a table holding the book titled \<^verbatim>\<open>abc\<close> the search returns that
  book, although \<^verbatim>\<open>a_c\<close> is not a substring of its title in any case: the parameter
  reaches the pattern of \<^verbatim>\<open>LIKE\<close> unescaped, and its underscore stands for any
  character.
\<close>

theorem search_books_wildcard:
  "search_books (Some ''a_c'') None None [book2] = Inr [book2]
   \<and> title book2 = Some ''abc''
   \<and> \<not> ci_substring ''a_c'' (title book2)
   \<and> \<not> wanted (Some ''a_c'') None None book2"
  by (simp add: search_books_def ilike_def lower_def Let_def char_of_eq_iff book2_def
      wanted_def ci_substring_def sublist_code prefix_code)

text \<open>The search at a minimum rating of \<open>2\<^sup>6\<^sup>3\<close>: no result, the driver raises.\<close>

lemma search_books_overflow:
  "search_books None None (Some (2 ^ 63)) [book1, book2] = Inl OverflowError"
  by (simp add: search_books_selected int64_def)

end
